theory Spec2Isabelle
  imports Complex_Main
begin

section \<open>JavaScript numbers\<close>

text \<open>
  The coordinates, distances and ratios of the editor are JavaScript numbers.  They are
  modelled as exact reals extended by the three special values the program can produce
  through a division by zero: \<open>Infinity\<close>, \<open>-Infinity\<close> and \<open>NaN\<close>.  Rounding error and
  overflow of IEEE doubles are not modelled.  Every divisor of the program is a distance,
  a ratio of distances, a sum of distances, a difference of table entries or a counter,
  so a zero divisor is always the positive zero and the sign of a quotient by zero is the
  sign of the dividend.
\<close>

datatype number = Num real | Infinity | NegInfinity | NaN

fun negate :: "number \<Rightarrow> number" where
  "negate (Num r) = Num (- r)"
| "negate Infinity = NegInfinity"
| "negate NegInfinity = Infinity"
| "negate NaN = NaN"

instantiation number :: "{plus, minus, times, inverse, ord}"
begin

fun plus_number :: "number \<Rightarrow> number \<Rightarrow> number" where
  "plus_number NaN _ = NaN"
| "plus_number _ NaN = NaN"
| "plus_number (Num r) (Num q) = Num (r + q)"
| "plus_number Infinity NegInfinity = NaN"
| "plus_number NegInfinity Infinity = NaN"
| "plus_number Infinity _ = Infinity"
| "plus_number _ Infinity = Infinity"
| "plus_number NegInfinity _ = NegInfinity"
| "plus_number _ NegInfinity = NegInfinity"

definition minus_number :: "number \<Rightarrow> number \<Rightarrow> number" where
  "minus_number (u :: number) v = u + negate v"

fun times_number :: "number \<Rightarrow> number \<Rightarrow> number" where
  "times_number NaN _ = NaN"
| "times_number _ NaN = NaN"
| "times_number (Num r) (Num q) = Num (r * q)"
| "times_number Infinity (Num q) = (if q = 0 then NaN else if 0 < q then Infinity else NegInfinity)"
| "times_number NegInfinity (Num q) = (if q = 0 then NaN else if 0 < q then NegInfinity else Infinity)"
| "times_number (Num r) Infinity = (if r = 0 then NaN else if 0 < r then Infinity else NegInfinity)"
| "times_number (Num r) NegInfinity = (if r = 0 then NaN else if 0 < r then NegInfinity else Infinity)"
| "times_number Infinity Infinity = Infinity"
| "times_number NegInfinity NegInfinity = Infinity"
| "times_number Infinity NegInfinity = NegInfinity"
| "times_number NegInfinity Infinity = NegInfinity"

fun divide_number :: "number \<Rightarrow> number \<Rightarrow> number" where
  "divide_number NaN _ = NaN"
| "divide_number _ NaN = NaN"
| "divide_number (Num r) (Num q) =
     (if q = 0 then (if r = 0 then NaN else if 0 < r then Infinity else NegInfinity)
      else Num (r / q))"
| "divide_number (Num r) _ = Num 0"
| "divide_number Infinity (Num q) = (if 0 \<le> q then Infinity else NegInfinity)"
| "divide_number NegInfinity (Num q) = (if 0 \<le> q then NegInfinity else Infinity)"
| "divide_number _ _ = NaN"

fun inverse_number :: "number \<Rightarrow> number" where
  "inverse_number (Num q) = (if q = 0 then Infinity else Num (1 / q))"
| "inverse_number NaN = NaN"
| "inverse_number _ = Num 0"

fun less_number :: "number \<Rightarrow> number \<Rightarrow> bool" where
  "less_number NaN _ = False"
| "less_number _ NaN = False"
| "less_number (Num r) (Num q) = (r < q)"
| "less_number Infinity _ = False"
| "less_number _ NegInfinity = False"
| "less_number _ Infinity = True"
| "less_number NegInfinity _ = True"

fun less_eq_number :: "number \<Rightarrow> number \<Rightarrow> bool" where
  "less_eq_number NaN _ = False"
| "less_eq_number _ NaN = False"
| "less_eq_number (Num r) (Num q) = (r \<le> q)"
| "less_eq_number NegInfinity _ = True"
| "less_eq_number _ Infinity = True"
| "less_eq_number _ _ = False"

instance ..

end

text \<open>\<open>===\<close> on numbers: \<open>NaN\<close> is not equal to itself.\<close>

definition strictEq :: "number \<Rightarrow> number \<Rightarrow> bool" where
  "strictEq u v = (u \<noteq> NaN \<and> u = v)"

fun isNaN :: "number \<Rightarrow> bool" where
  "isNaN NaN = True"
| "isNaN _ = False"

fun Math_sqrt :: "number \<Rightarrow> number" where
  "Math_sqrt (Num r) = (if r < 0 then NaN else Num (sqrt r))"
| "Math_sqrt Infinity = Infinity"
| "Math_sqrt _ = NaN"

text \<open>\<open>Math.round\<close> rounds to the nearest integer, a tie towards \<open>+\<infinity>\<close>.\<close>

fun Math_round :: "number \<Rightarrow> number" where
  "Math_round (Num r) = Num (of_int \<lfloor>r + 1 / 2\<rfloor>)"
| "Math_round u = u"

fun Math_floor :: "number \<Rightarrow> number" where
  "Math_floor (Num r) = Num (of_int \<lfloor>r\<rfloor>)"
| "Math_floor u = u"

text \<open>\<open>Math.pow\<close> is only called with the exponents 2 and 3.\<close>

fun Math_pow :: "number \<Rightarrow> nat \<Rightarrow> number" where
  "Math_pow u 0 = Num 1"
| "Math_pow u (Suc 0) = u"
| "Math_pow u (Suc n) = u * Math_pow u n"

section \<open>Points\<close>

text \<open>
  \<open>Point\<close> and its subclass \<open>ConstructionPoint\<close> (a knot), as records.  An object is
  identified by its \<open>id\<close>, which is unique (the static counter \<open>Point.count\<close> only
  grows); in the model the \<open>id\<close> is the address (\<open>ref\<close>) at which the object is stored.
  A knot refers to its two handles and a handle refers to its parent knot by such
  references; \<open>None\<close> is \<open>null\<close>.  Every knot gets its \<open>handler1\<close> in the statement that
  follows its construction and \<open>handler1\<close> is never reset to \<open>null\<close>, so \<open>handler1\<close> is a
  reference; \<open>handler2\<close> may be \<open>null\<close>.
\<close>

type_synonym ref = nat

record Point =
  x :: number
  y :: number
  active :: bool
  parent :: "ref option"

record ConstructionPoint = Point +
  handler1 :: ref
  handler2 :: "ref option"
  fromCasteljau :: bool

text \<open>\<open>new Point(x, y)\<close>: the setters \<open>xCoord\<close> and \<open>yCoord\<close> round the coordinates.\<close>

definition newPoint :: "number \<Rightarrow> number \<Rightarrow> Point" where
  "newPoint u v = \<lparr>x = Math_round u, y = Math_round v, active = False, parent = None\<rparr>"

definition clone :: "'e Point_scheme \<Rightarrow> Point" where
  "clone p = newPoint (x p) (y p)"

definition getDistance :: "'e Point_scheme \<Rightarrow> 'f Point_scheme \<Rightarrow> number" where
  "getDistance p q = Math_sqrt (Math_pow (x p - x q) 2 + Math_pow (y p - y q) 2)"

definition weighted :: "'e Point_scheme \<Rightarrow> 'f Point_scheme \<Rightarrow> number \<Rightarrow> Point" where
  "weighted P0 P1 t =
     newPoint (x P0 * (Num 1 - t) + x P1 * t) (y P0 * (Num 1 - t) + y P1 * t)"

section \<open>The arc-length sampler\<close>

definition cubicBezierInterpolate ::
  "number \<Rightarrow> 'e Point_scheme \<Rightarrow> 'f Point_scheme \<Rightarrow> 'g Point_scheme \<Rightarrow> 'h Point_scheme \<Rightarrow> Point" where
  "cubicBezierInterpolate t P0 P1 P2 P3 =
     newPoint
       (x P0 * Math_pow (Num 1 - t) 3 + Num 3 * x P1 * t * Math_pow (Num 1 - t) 2
          + Num 3 * x P2 * t * t * (Num 1 - t) + x P3 * t * t * t)
       (y P0 * Math_pow (Num 1 - t) 3 + Num 3 * y P1 * t * Math_pow (Num 1 - t) 2
          + Num 3 * y P2 * t * t * (Num 1 - t) + y P3 * t * t * t)"

text \<open>
  \<open>BezierUtils\<close>: the four control points of one segment (read, never written, so they
  are held by value), the number of steps \<open>len\<close> and the table \<open>arcLengths\<close> of
  \<open>len + 1\<close> entries.  The declared field \<open>length\<close> is never assigned; it has no
  counterpart here and reading it gives \<open>undefined\<close>.
\<close>

record BezierUtils =
  a :: Point
  b :: Point
  c :: Point
  d :: Point
  len :: nat
  arcLengths :: "number list"

definition interpolate :: "BezierUtils \<Rightarrow> number \<Rightarrow> Point" where
  "interpolate bz t = cubicBezierInterpolate t (a bz) (b bz) (c bz) (d bz)"

text \<open>
  The constructor's loop, for \<open>i\<close> from 1 to \<open>len\<close>.  The loop state is
  \<open>(ox, oy, clen, arcLengths)\<close>.
\<close>

definition arcStep ::
  "Point \<Rightarrow> Point \<Rightarrow> Point \<Rightarrow> Point \<Rightarrow> nat \<Rightarrow> number \<times> number \<times> number \<times> number list \<Rightarrow> nat
     \<Rightarrow> number \<times> number \<times> number \<times> number list" where
  "arcStep A B C D n st i =
     (case st of (ox, oy, clen, arcs) \<Rightarrow>
        (let interpolation = cubicBezierInterpolate (Num (real i) / Num (real n)) A B C D;
             dx = ox - x interpolation;
             dy = oy - y interpolation;
             clen' = clen + Math_sqrt (dx * dx + dy * dy)
         in (x interpolation, y interpolation, clen', arcs @ [clen'])))"

definition newBezierUtils :: "Point \<Rightarrow> Point \<Rightarrow> Point \<Rightarrow> Point \<Rightarrow> nat \<Rightarrow> BezierUtils" where
  "newBezierUtils A B C D n =
     (let interpolationPoint = cubicBezierInterpolate (Num 0) A B C D
      in \<lparr>a = A, b = B, c = C, d = D, len = n,
          arcLengths = snd (snd (snd (foldl (arcStep A B C D n)
             (x interpolationPoint, y interpolationPoint, Num 0, [Num 0]) [1..<Suc n])))\<rparr>)"

text \<open>
  Reading the table: an index outside it gives \<open>undefined\<close>, which every use here
  (comparison, \<open>===\<close> with a number, arithmetic) treats as \<open>NaN\<close>.
\<close>

definition arcAt :: "BezierUtils \<Rightarrow> int \<Rightarrow> number" where
  "arcAt bz i = (if 0 \<le> i \<and> i < int (length (arcLengths bz)) then arcLengths bz ! nat i else NaN)"

text \<open>The binary search of \<open>map\<close>; it returns the last value of \<open>index\<close>.\<close>

function mapSearch :: "BezierUtils \<Rightarrow> number \<Rightarrow> int \<Rightarrow> int \<Rightarrow> int \<Rightarrow> int" where
  "mapSearch bz targetLength low high index =
     (if low < high then
        (let index' = low + (high - low) div 2
         in if arcAt bz index' < targetLength
            then mapSearch bz targetLength (index' + 1) high index'
            else mapSearch bz targetLength low index' index')
      else index)"
  by pat_completeness auto
termination
  by (relation "measure (\<lambda>(bz, targetLength, low, high, index). nat (high - low))") auto

declare mapSearch.simps [simp del]

definition map_u :: "BezierUtils \<Rightarrow> number \<Rightarrow> number" where
  "map_u bz u =
     (let targetLength = u * arcAt bz (int (len bz));
          index0 = mapSearch bz targetLength 0 (int (len bz)) 0;
          index = (if targetLength < arcAt bz index0 then index0 - 1 else index0);
          lengthBefore = arcAt bz index
      in if strictEq lengthBefore targetLength then Num (of_int index) / Num (real (len bz))
         else (Num (of_int index)
                 + (targetLength - lengthBefore) / (arcAt bz (index + 1) - lengthBefore))
              / Num (real (len bz)))"

definition mx :: "BezierUtils \<Rightarrow> number \<Rightarrow> number" where
  "mx bz u = x (interpolate bz (map_u bz u))"

definition my :: "BezierUtils \<Rightarrow> number \<Rightarrow> number" where
  "my bz u = y (interpolate bz (map_u bz u))"

text \<open>
  \<open>getLength\<close>: the loop for \<open>i\<close> from 0 to 99, with the loop state
  \<open>(length, prevPt.x, prevPt.y)\<close>.
\<close>

definition lengthStep :: "BezierUtils \<Rightarrow> number \<times> number \<times> number \<Rightarrow> nat \<Rightarrow> number \<times> number \<times> number" where
  "lengthStep bz st i =
     (case st of (length', prevX, prevY) \<Rightarrow>
        (let t = Num (real i) / Num 100;
             t1 = Num 1 - t;
             t1_3 = t1 * t1 * t1;
             t1_3a = (Num 3 * t) * (t1 * t1);
             t1_3b = (Num 3 * (t * t)) * t1;
             t1_3c = t * t * t;
             ptX = (x (a bz) * t1_3) + (t1_3a * x (b bz)) + (t1_3b * x (c bz)) + (t1_3c * x (d bz));
             ptY = (y (a bz) * t1_3) + (t1_3a * y (b bz)) + (t1_3b * y (c bz)) + (t1_3c * y (d bz))
         in ((if 0 < i
              then length' + Math_sqrt ((ptX - prevX) * (ptX - prevX) + (ptY - prevY) * (ptY - prevY))
              else length'),
             ptX, ptY)))"

definition getLength :: "BezierUtils \<Rightarrow> number" where
  "getLength bz = fst (foldl (lengthStep bz) (Num 0, NaN, NaN) [0..<100])"

section \<open>The editor state\<close>

text \<open>
  The objects of the editor live in two stores, one per class, that share the counter
  \<open>Point.count\<close>: \<open>points\<close> holds the plain \<open>Point\<close> objects that become handles,
  \<open>knots\<close> holds the \<open>ConstructionPoint\<close> objects.  Handles are always plain points
  (they come from \<open>new Point\<close>, \<open>clone\<close> and \<open>weighted\<close>) and the elements of
  \<open>constructionPoints\<close> and the \<open>parent\<close> of a point are always knots.  An object is
  never removed from its store, so a reference that has become stale still reads and
  writes the detached object.  Points that are only used as intermediate values
  (positions, interpolated points) are values and take no reference; only the identity
  of objects matters to the program, never the value of an \<open>id\<close>.

  \<open>currentMovingPoint\<close> refers to a knot or to a handle; the constructor of \<open>objref\<close>
  is what \<open>instanceof ConstructionPoint\<close> tests.  The options that only concern the
  rendering are left out.
\<close>

datatype objref = PointRef ref | ConstructionPointRef ref

record Options =
  naturalDrawMode :: bool
  maxDistance :: number
  smoothFactor :: number
  constraintTangents :: bool

record BezierCanvas =
  points :: "ref \<Rightarrow> Point"
  knots :: "ref \<Rightarrow> ConstructionPoint"
  Point_count :: nat
  constructionPoints :: "ref list"
  currentMovingPoint :: "objref option"
  isMouseDown :: bool
  ctrlKeyIsDown :: bool
  mouseReleaseAfterConstructionPointCreation :: bool
  options :: Options

text \<open>
  An event handler either runs to its end or stops at a \<open>TypeError\<close> (a property read
  on \<open>null\<close>); in both cases the state is the one reached so far.
\<close>

datatype completion = Normal BezierCanvas | TypeError BezierCanvas

fun stateOf :: "completion \<Rightarrow> BezierCanvas" where
  "stateOf (Normal s) = s"
| "stateOf (TypeError s) = s"

definition updPoint :: "ref \<Rightarrow> (Point \<Rightarrow> Point) \<Rightarrow> BezierCanvas \<Rightarrow> BezierCanvas" where
  "updPoint r f s = s\<lparr>points := (points s)(r := f (points s r))\<rparr>"

definition updKnot ::
  "ref \<Rightarrow> (ConstructionPoint \<Rightarrow> ConstructionPoint) \<Rightarrow> BezierCanvas \<Rightarrow> BezierCanvas" where
  "updKnot r f s = s\<lparr>knots := (knots s)(r := f (knots s r))\<rparr>"

text \<open>The \<open>Point\<close> part of the object behind a reference.\<close>

definition knotPoint :: "BezierCanvas \<Rightarrow> ref \<Rightarrow> Point" where
  "knotPoint s r = Point.truncate (knots s r)"

definition allocPoint :: "BezierCanvas \<Rightarrow> Point \<Rightarrow> ref \<times> BezierCanvas" where
  "allocPoint s p =
     (Point_count s, s\<lparr>points := (points s)(Point_count s := p), Point_count := Suc (Point_count s)\<rparr>)"

text \<open>The setters of \<open>handler1\<close> and \<open>handler2\<close>: a point that is not \<open>null\<close> gets its parent.\<close>

definition setHandler1 :: "BezierCanvas \<Rightarrow> ref \<Rightarrow> ref \<Rightarrow> BezierCanvas" where
  "setHandler1 s k h =
     updPoint h (\<lambda>p. p\<lparr>parent := Some k\<rparr>) (updKnot k (\<lambda>q. q\<lparr>handler1 := h\<rparr>) s)"

definition setHandler2 :: "BezierCanvas \<Rightarrow> ref \<Rightarrow> ref option \<Rightarrow> BezierCanvas" where
  "setHandler2 s k ho =
     (let s1 = updKnot k (\<lambda>q. q\<lparr>handler2 := ho\<rparr>) s
      in case ho of None \<Rightarrow> s1 | Some h \<Rightarrow> updPoint h (\<lambda>p. p\<lparr>parent := Some k\<rparr>) s1)"

text \<open>
  \<open>new ConstructionPoint(x, y)\<close> together with the assignment of its \<open>handler1\<close>, which
  is the point at \<open>h\<close>.
\<close>

definition allocConstructionPoint ::
  "BezierCanvas \<Rightarrow> number \<Rightarrow> number \<Rightarrow> ref \<Rightarrow> ref \<times> BezierCanvas" where
  "allocConstructionPoint s u v h =
     (let k = Point_count s;
          s1 = s\<lparr>knots := (knots s)(k :=
                  \<lparr>x = Math_round u, y = Math_round v, active = False, parent = None,
                   handler1 = h, handler2 = None, fromCasteljau = False\<rparr>),
                Point_count := Suc k\<rparr>
      in (k, setHandler1 s1 k h))"

text \<open>\<open>P.handler2 || P.handler1\<close>, the handle that leaves the knot \<open>P\<close>.\<close>

definition outgoingHandler :: "BezierCanvas \<Rightarrow> ref \<Rightarrow> ref" where
  "outgoingHandler s r = (case handler2 (knots s r) of Some h \<Rightarrow> h | None \<Rightarrow> handler1 (knots s r))"

definition resetActiveStep :: "BezierCanvas \<Rightarrow> ref \<Rightarrow> BezierCanvas" where
  "resetActiveStep s r =
     (let s1 = updKnot r (\<lambda>q. q\<lparr>active := False\<rparr>) s;
          s2 = updPoint (handler1 (knots s1 r)) (\<lambda>p. p\<lparr>active := False\<rparr>) s1
      in case handler2 (knots s2 r) of None \<Rightarrow> s2
         | Some h \<Rightarrow> updPoint h (\<lambda>p. p\<lparr>active := False\<rparr>) s2)"

definition resetActivePoint :: "BezierCanvas \<Rightarrow> BezierCanvas" where
  "resetActivePoint s = foldl resetActiveStep s (constructionPoints s)"

definition setActivePoint :: "BezierCanvas \<Rightarrow> objref \<Rightarrow> BezierCanvas" where
  "setActivePoint s point =
     (let s1 = resetActivePoint s;
          s2 = (case point of
                  PointRef r \<Rightarrow> updPoint r (\<lambda>p. p\<lparr>active := True\<rparr>) s1
                | ConstructionPointRef r \<Rightarrow> updKnot r (\<lambda>q. q\<lparr>active := True\<rparr>) s1)
      in s2\<lparr>currentMovingPoint := Some point\<rparr>)"

text \<open>
  The editor as its constructor leaves it when no points are given.  The cells of the
  stores that hold no object yet are filled with a placeholder.
\<close>

definition defaultOptions :: Options where
  "defaultOptions =
     \<lparr>naturalDrawMode = True, maxDistance = Num 10, smoothFactor = Num (1 / 2),
      constraintTangents = True\<rparr>"

definition newBezierCanvas :: "Options \<Rightarrow> BezierCanvas" where
  "newBezierCanvas opts =
     \<lparr>points = (\<lambda>r. \<lparr>x = NaN, y = NaN, active = False, parent = None\<rparr>),
      knots = (\<lambda>r. \<lparr>x = NaN, y = NaN, active = False, parent = None,
                     handler1 = 0, handler2 = None, fromCasteljau = False\<rparr>),
      Point_count = 0,
      constructionPoints = [],
      currentMovingPoint = None,
      isMouseDown = False,
      ctrlKeyIsDown = False,
      mouseReleaseAfterConstructionPointCreation = True,
      options = opts\<rparr>"

section \<open>Export and import\<close>

text \<open>
  One record of the exported array: \<open>{x, y, hp1: {x, y}, hp2?: {x, y}}\<close>.  The fields
  \<open>x\<close> and \<open>y\<close> are called \<open>kx\<close> and \<open>ky\<close> here; \<open>hp2 = None\<close> is a record without the
  property \<open>hp2\<close>.  A record that lacks \<open>x\<close>, \<open>y\<close> or \<open>hp1\<close> is not represented.
\<close>

record KnotRecord =
  kx :: number
  ky :: number
  hp1 :: "number \<times> number"
  hp2 :: "(number \<times> number) option"

definition getPointsStep :: "BezierCanvas \<Rightarrow> ref \<Rightarrow> KnotRecord" where
  "getPointsStep s r =
     \<lparr>kx = x (knots s r), ky = y (knots s r),
      hp1 = (x (points s (handler1 (knots s r))), y (points s (handler1 (knots s r)))),
      hp2 = (case handler2 (knots s r) of None \<Rightarrow> None
             | Some h \<Rightarrow> Some (x (points s h), y (points s h)))\<rparr>"

definition getPoints :: "BezierCanvas \<Rightarrow> KnotRecord list" where
  "getPoints s = map (getPointsStep s) (constructionPoints s)"

text \<open>
  \<open>reset\<close> empties the spline (and clears the drawing surface and the history, which
  are held elsewhere).
\<close>

definition reset :: "BezierCanvas \<Rightarrow> BezierCanvas" where
  "reset s = s\<lparr>constructionPoints := []\<rparr>"

definition setPointsStep :: "BezierCanvas \<Rightarrow> KnotRecord \<Rightarrow> BezierCanvas" where
  "setPointsStep s point =
     (let (h1, s1) = allocPoint s (newPoint (fst (hp1 point)) (snd (hp1 point)));
          (parsed, s2) = allocConstructionPoint s1 (kx point) (ky point) h1;
          s3 = (case hp2 point of None \<Rightarrow> s2
                | Some hp \<Rightarrow>
                    (let (h2, s2') = allocPoint s2 (newPoint (fst hp) (snd hp))
                     in setHandler2 s2' parsed (Some h2)))
      in s3\<lparr>constructionPoints := constructionPoints s3 @ [parsed]\<rparr>)"

definition setPoints :: "BezierCanvas \<Rightarrow> KnotRecord list \<Rightarrow> BezierCanvas" where
  "setPoints s pts = foldl setPointsStep (reset s) pts"

section \<open>Hit tests\<close>

text \<open>
  \<open>findClosestConstructionPoint\<close>: the \<open>return\<close> in the callback of \<open>forEach\<close> ends
  that call of the callback only, so the loop goes on over the whole array and
  \<open>foundPoint\<close> is overwritten by every later knot within \<open>maxDistance\<close>.
\<close>

definition findClosestConstructionPoint :: "BezierCanvas \<Rightarrow> number \<Rightarrow> number \<Rightarrow> ref option" where
  "findClosestConstructionPoint s u v =
     (let position = newPoint u v
      in foldl (\<lambda>foundPoint curPoint.
                  if getDistance position (knots s curPoint) < maxDistance (options s)
                  then Some curPoint else foundPoint)
           None (constructionPoints s))"

text \<open>
  The result of \<open>findPointOnSpline\<close>: the projected point, its distance, the index
  \<open>position\<close> at which a knot would be inserted, the parameter \<open>t\<close> and the four control
  points of the segment.  Before the first hit \<open>distance\<close> is \<open>NaN\<close>.
\<close>

record PointOnSpline =
  hit_point :: Point
  hit_distance :: number
  hit_position :: nat
  hit_t :: number
  hit_P0 :: ref
  hit_P1 :: ref
  hit_P2 :: ref
  hit_P3 :: ref

definition projectionStep ::
  "BezierCanvas \<Rightarrow> Point \<Rightarrow> nat \<Rightarrow> ref \<Rightarrow> ref \<Rightarrow> PointOnSpline option \<Rightarrow> nat \<Rightarrow> PointOnSpline option" where
  "projectionStep s clickPosition index currentPoint nextPoint found i =
     (let curPoint = cubicBezierInterpolate (Num (real i) / Num 100)
                       (knots s currentPoint) (points s (outgoingHandler s currentPoint))
                       (points s (handler1 (knots s nextPoint))) (knots s nextPoint);
          curDistance = getDistance curPoint clickPosition;
          distance = (case found of None \<Rightarrow> NaN | Some hit \<Rightarrow> hit_distance hit)
      in if curDistance \<le> maxDistance (options s) \<and> (isNaN distance \<or> curDistance < distance)
         then Some \<lparr>hit_point = newPoint (x curPoint) (y curPoint), hit_distance = curDistance,
                    hit_position = index, hit_t = Num (real i) / Num 100,
                    hit_P0 = currentPoint, hit_P1 = outgoingHandler s currentPoint,
                    hit_P2 = handler1 (knots s nextPoint), hit_P3 = nextPoint\<rparr>
         else found)"

definition findPointOnSpline :: "BezierCanvas \<Rightarrow> number \<Rightarrow> number \<Rightarrow> PointOnSpline option" where
  "findPointOnSpline s u v =
     (let clickPosition = newPoint u v;
          cps = constructionPoints s;
          found = foldl (\<lambda>found index.
                     foldl (projectionStep s clickPosition index (cps ! index) (cps ! Suc index))
                       found [0..<101])
                   None [0..<length cps - 1]
      in case found of None \<Rightarrow> None
         | Some hit \<Rightarrow> Some (hit\<lparr>hit_position := hit_position hit + 1\<rparr>))"

section \<open>Removing and inserting a knot\<close>

text \<open>\<open>this.constructionPoints[i] || null\<close>.\<close>

definition arrayAt :: "ref list \<Rightarrow> int \<Rightarrow> ref option" where
  "arrayAt cps i = (if 0 \<le> i \<and> i < int (length cps) then Some (cps ! nat i) else None)"

text \<open>
  The search loop of \<open>removeConstructionPoint\<close> compares the \<open>id\<close>s and, as its
  \<open>return\<close> does not leave \<open>forEach\<close>, keeps the last index that matches.
\<close>

definition foundIndexOf :: "ref list \<Rightarrow> ref \<Rightarrow> nat option" where
  "foundIndexOf cps point =
     foldl (\<lambda>foundIndex index. if cps ! index = point then Some index else foundIndex)
       None [0..<length cps]"

text \<open>
  The fusion of the two segments around \<open>foundPoint\<close>, between the knots \<open>P0\<close> and
  \<open>P3\<close>; \<open>P1\<close> and \<open>P2\<close> are never \<open>null\<close> when \<open>P0\<close> and \<open>P3\<close> are not.  It stops at a
  \<open>TypeError\<close> when \<open>foundPoint.handler2\<close> is \<open>null\<close>.  \<open>P\<close> and \<open>Q\<close> are computed before
  the first of the four assignments.
\<close>

definition reverseCasteljau :: "BezierCanvas \<Rightarrow> ref \<Rightarrow> ref \<Rightarrow> ref \<Rightarrow> completion" where
  "reverseCasteljau s foundPoint P0 P3 =
     (let P1 = outgoingHandler s P0;
          P2 = handler1 (knots s P3)
      in case handler2 (knots s foundPoint) of
           None \<Rightarrow> TypeError s
         | Some h2 \<Rightarrow>
            (let k = getDistance (points s h2) (knots s foundPoint)
                       / getDistance (points s (handler1 (knots s foundPoint))) (knots s foundPoint)
             in if \<not> isNaN k then
                  (let Px = (Num 1 + k) * x (points s P1) - k * x (knots s P0);
                       Py = (Num 1 + k) * y (points s P1) - k * y (knots s P0);
                       P = newPoint Px Py;
                       Qx = ((Num 1 + k) * x (points s P2) - x (knots s P3)) / k;
                       Qy = ((Num 1 + k) * y (points s P2) - y (knots s P3)) / k;
                       Q = newPoint Qx Qy;
                       s1 = updPoint P1 (\<lambda>p. p\<lparr>x := x P, y := y P\<rparr>) s
                   in Normal (updPoint P2 (\<lambda>p. p\<lparr>x := x Q, y := y Q\<rparr>) s1))
                else Normal s))"

text \<open>
  The end of \<open>removeConstructionPoint\<close>: in classical mode the first knot keeps one
  handle (a clone of its \<open>handler2\<close> when it has one) and the last knot loses its
  \<open>handler2\<close>.
\<close>

definition enforceCardinality :: "BezierCanvas \<Rightarrow> BezierCanvas" where
  "enforceCardinality s =
     (if constructionPoints s \<noteq> [] \<and> \<not> naturalDrawMode (options s) then
        (let first = constructionPoints s ! 0;
             s1 = (case handler2 (knots s first) of
                     None \<Rightarrow> s
                   | Some h \<Rightarrow>
                       (let (h', s') = allocPoint s (clone (points s h))
                        in setHandler2 (setHandler1 s' first h') first None))
         in setHandler2 s1 (constructionPoints s1 ! (length (constructionPoints s1) - 1)) None)
      else s)"

text \<open>\<open>splice(foundIndex, 1)\<close>; a \<open>foundIndex\<close> that is still \<open>NaN\<close> counts as 0.\<close>

definition spliceOut :: "ref list \<Rightarrow> nat option \<Rightarrow> ref list" where
  "spliceOut cps foundIndex =
     (case foundIndex of None \<Rightarrow> drop 1 cps | Some i \<Rightarrow> take i cps @ drop (Suc i) cps)"

definition removeConstructionPoint :: "BezierCanvas \<Rightarrow> ref \<Rightarrow> completion" where
  "removeConstructionPoint s point =
     (let s1 = (if currentMovingPoint s = Some (ConstructionPointRef point)
                then s\<lparr>currentMovingPoint := None\<rparr> else s);
          cps = constructionPoints s1;
          foundIndex = foundIndexOf cps point;
          P0 = (case foundIndex of None \<Rightarrow> None | Some i \<Rightarrow> arrayAt cps (int i - 1));
          P3 = (case foundIndex of None \<Rightarrow> None | Some i \<Rightarrow> arrayAt cps (int i + 1));
          fused = (case (fromCasteljau (knots s1 point), P0, P3) of
                     (True, Some p0, Some p3) \<Rightarrow> reverseCasteljau s1 point p0 p3
                   | _ \<Rightarrow> Normal s1)
      in case fused of
           TypeError s2 \<Rightarrow> TypeError s2
         | Normal s2 \<Rightarrow>
             Normal (enforceCardinality (s2\<lparr>constructionPoints := spliceOut cps foundIndex\<rparr>)))"

text \<open>
  \<open>knotInsertion\<close>.  The loop that inserts the new knot after \<open>P0\<close> runs over the
  indices of the array as it was when the loop began and reads the array as it is.
\<close>

definition insertAfter :: "ref list \<Rightarrow> ref \<Rightarrow> ref \<Rightarrow> ref list" where
  "insertAfter cps P0 newPoint' =
     foldl (\<lambda>l index. if l ! index = P0 then take (Suc index) l @ newPoint' # drop (Suc index) l else l)
       cps [0..<length cps]"

definition knotInsertion :: "BezierCanvas \<Rightarrow> number \<Rightarrow> ref \<Rightarrow> ref \<Rightarrow> ref \<Rightarrow> ref \<Rightarrow> BezierCanvas" where
  "knotInsertion s t P0 P1 P2 P3 =
     (let P4 = weighted (knots s P0) (points s P1) t;
          P5 = weighted (points s P1) (points s P2) t;
          P6 = weighted (points s P2) (knots s P3) t;
          P7 = weighted P4 P5 t;
          P8 = weighted P5 P6 t;
          P9 = weighted P7 P8 t;
          (h1, s1) = allocPoint s P7;
          (h2, s2) = allocPoint s1 P8;
          (newPoint', s3) = allocConstructionPoint s2 (x P9) (y P9) h1;
          s4 = updKnot newPoint' (\<lambda>q. q\<lparr>fromCasteljau := True\<rparr>) s3;
          s5 = setActivePoint s4 (ConstructionPointRef newPoint');
          s6 = setHandler2 s5 newPoint' (Some h2);
          s7 = updPoint P1 (\<lambda>p. p\<lparr>x := x P4, y := y P4\<rparr>) s6;
          s8 = updPoint P2 (\<lambda>p. p\<lparr>x := x P6, y := y P6\<rparr>) s7
      in s8\<lparr>constructionPoints := insertAfter (constructionPoints s8) P0 newPoint'\<rparr>)"

section \<open>Pointer events\<close>

text \<open>
  The handlers take the coordinates of the event relative to the canvas;
  \<open>getPosition\<close> makes a \<open>Point\<close> of them, which rounds them.
\<close>

definition objPoint :: "BezierCanvas \<Rightarrow> objref \<Rightarrow> Point" where
  "objPoint s point = (case point of PointRef r \<Rightarrow> points s r | ConstructionPointRef r \<Rightarrow> knotPoint s r)"

definition pointsToCheck :: "BezierCanvas \<Rightarrow> ref \<Rightarrow> objref list" where
  "pointsToCheck s r =
     [ConstructionPointRef r, PointRef (handler1 (knots s r))]
       @ (case handler2 (knots s r) of None \<Rightarrow> [] | Some h \<Rightarrow> [PointRef h])"

text \<open>The selection loop of a click with the control key down, on \<open>(distance, selectedPoint)\<close>.\<close>

definition selectStep ::
  "BezierCanvas \<Rightarrow> Point \<Rightarrow> number \<times> objref option \<Rightarrow> objref \<Rightarrow> number \<times> objref option" where
  "selectStep s position st checkedPoint =
     (let curDistance = getDistance (objPoint s checkedPoint) position
      in if curDistance \<le> maxDistance (options s) \<and> (isNaN (fst st) \<or> curDistance \<le> fst st)
         then (getDistance (objPoint s checkedPoint) position, Some checkedPoint)
         else st)"

definition selectPoint :: "BezierCanvas \<Rightarrow> Point \<Rightarrow> objref option" where
  "selectPoint s position =
     snd (foldl (\<lambda>st r. foldl (selectStep s position) st (pointsToCheck s r))
            (NaN, None) (constructionPoints s))"

text \<open>
  The branch of the left click that appends a knot at \<open>position\<close>.  With more than two
  knots the previous knot \<open>D\<close> gets a new handle; in natural mode this reads
  \<open>D.handler2.x\<close> and stops at a \<open>TypeError\<close> when \<open>D\<close> has no \<open>handler2\<close>.
\<close>

definition appendConstructionPoint :: "BezierCanvas \<Rightarrow> Point \<Rightarrow> completion" where
  "appendConstructionPoint s position =
     (let s1 = s\<lparr>mouseReleaseAfterConstructionPointCreation := False\<rparr>;
          (h1, s2) = allocPoint s1 (newPoint (x position) (y position));
          (point, s3) = allocConstructionPoint s2 (x position) (y position) h1;
          (s4, activePoint) =
             (if naturalDrawMode (options s3)
              then (let (h2, s3') = allocPoint s3 (newPoint (x position) (y position))
                    in (setHandler2 s3' point (Some h2), h2))
              else (s3, h1));
          s5 = s4\<lparr>constructionPoints := constructionPoints s4 @ [point]\<rparr>;
          s6 = setActivePoint s5 (PointRef activePoint)
      in if 2 < length (constructionPoints s6) then
           (let D = constructionPoints s6 ! (length (constructionPoints s6) - 2);
                smooth = smoothFactor (options s6)
            in if naturalDrawMode (options s6) then
                 (case handler2 (knots s6 D) of
                    None \<Rightarrow> TypeError s6
                  | Some dh \<Rightarrow>
                      (let (h, s7) = allocPoint s6
                             (newPoint (x (knots s6 D) - smooth * (x (points s6 dh) - x (knots s6 D)))
                                       (y (knots s6 D) - smooth * (y (points s6 dh) - y (knots s6 D))))
                       in Normal (setHandler1 s7 D h)))
               else
                 (let dh = handler1 (knots s6 D);
                      (h, s7) = allocPoint s6
                             (newPoint (x (knots s6 D) - smooth * (x (points s6 dh) - x (knots s6 D)))
                                       (y (knots s6 D) - smooth * (y (points s6 dh) - y (knots s6 D))))
                  in Normal (setHandler2 s7 D (Some h))))
         else Normal s6)"

text \<open>The handler of \<open>mousedown\<close> for the left button.\<close>

definition mouseDownLeft :: "BezierCanvas \<Rightarrow> number \<Rightarrow> number \<Rightarrow> completion" where
  "mouseDownLeft s u v =
     (let s1 = s\<lparr>isMouseDown := True\<rparr>;
          position = newPoint u v
      in if ctrlKeyIsDown s1 then
           (case selectPoint s1 position of
              None \<Rightarrow> Normal (s1\<lparr>currentMovingPoint := None\<rparr>)
            | Some selectedPoint \<Rightarrow> Normal (setActivePoint s1 selectedPoint))
         else
           (case findPointOnSpline s1 (x position) (y position) of
              Some pointOnSpline \<Rightarrow>
                Normal (knotInsertion s1 (hit_t pointOnSpline) (hit_P0 pointOnSpline)
                          (hit_P1 pointOnSpline) (hit_P2 pointOnSpline) (hit_P3 pointOnSpline))
            | None \<Rightarrow> appendConstructionPoint s1 position))"

text \<open>
  The tangent constraint of \<open>mousemove\<close>: the handle \<open>opposite\<close> of the knot \<open>par\<close> is
  rewritten when the other handle is dragged to \<open>position\<close>.  The result is \<open>None\<close>
  where the handler returns without moving anything (\<open>ratio === 0\<close>).  The new
  coordinates are assigned as they are, without rounding.
\<close>

definition constrainTangent :: "BezierCanvas \<Rightarrow> Point \<Rightarrow> ref \<Rightarrow> ref \<Rightarrow> BezierCanvas option" where
  "constrainTangent s position par opposite =
     (let distance1 = getDistance position (knots s par);
          distance2 = getDistance (points s opposite) (knots s par);
          ratio = distance1 / distance2
      in if naturalDrawMode (options s) \<and> \<not> mouseReleaseAfterConstructionPointCreation s then
           Some (updPoint opposite
                   (\<lambda>p. p\<lparr>x := x (knots s par) - (x position - x (knots s par)),
                           y := y (knots s par) - (y position - y (knots s par))\<rparr>) s)
         else if \<not> strictEq ratio (Num 0) then
           Some (updPoint opposite
                   (\<lambda>p. p\<lparr>x := x (knots s par) + (Num 1 / ratio) * (x (knots s par) - x position),
                           y := y (knots s par) + (Num 1 / ratio) * (y (knots s par) - y position)\<rparr>) s)
         else None)"

text \<open>
  The handler of \<open>mousemove\<close>, once the event has passed the rate limit (time is not
  modelled).  For a handle, \<open>isHandler1()\<close> reads \<open>this.parent.handler1\<close> and stops at a
  \<open>TypeError\<close> when the point has no parent.
\<close>

definition mouseMove :: "BezierCanvas \<Rightarrow> number \<Rightarrow> number \<Rightarrow> completion" where
  "mouseMove s u v =
     (if \<not> isMouseDown s then Normal s
      else
        (let position = newPoint u v
         in case currentMovingPoint s of
              None \<Rightarrow> Normal s
            | Some (ConstructionPointRef r) \<Rightarrow>
                (let delta1X = x (knots s r) - x (points s (handler1 (knots s r)));
                     delta1Y = y (knots s r) - y (points s (handler1 (knots s r)));
                     delta2X = (case handler2 (knots s r) of None \<Rightarrow> NaN
                                | Some h \<Rightarrow> x (knots s r) - x (points s h));
                     delta2Y = (case handler2 (knots s r) of None \<Rightarrow> NaN
                                | Some h \<Rightarrow> y (knots s r) - y (points s h));
                     s1 = updKnot r (\<lambda>q. q\<lparr>x := x position, y := y position\<rparr>) s;
                     s2 = updPoint (handler1 (knots s1 r))
                            (\<lambda>p. p\<lparr>x := x (knots s1 r) - delta1X, y := y (knots s1 r) - delta1Y\<rparr>) s1
                 in case handler2 (knots s2 r) of
                      None \<Rightarrow> Normal s2
                    | Some h \<Rightarrow>
                        Normal (updPoint h
                          (\<lambda>p. p\<lparr>x := x (knots s2 r) - delta2X, y := y (knots s2 r) - delta2Y\<rparr>) s2))
            | Some (PointRef r) \<Rightarrow>
                (let move = (\<lambda>s'. Normal (updPoint r (\<lambda>p. p\<lparr>x := x position, y := y position\<rparr>) s'))
                 in if constraintTangents (options s) then
                      (case parent (points s r) of
                         None \<Rightarrow> TypeError s
                       | Some par \<Rightarrow>
                           if handler1 (knots s par) = r \<and> handler2 (knots s par) \<noteq> None then
                             (case constrainTangent s position par (the (handler2 (knots s par))) of
                                None \<Rightarrow> Normal s
                              | Some s' \<Rightarrow> move s')
                           else if handler2 (knots s par) = Some r then
                             (case constrainTangent s position par (handler1 (knots s par)) of
                                None \<Rightarrow> Normal s
                              | Some s' \<Rightarrow> move s')
                           else move s)
                    else move s)))"

definition mouseUp :: "BezierCanvas \<Rightarrow> BezierCanvas" where
  "mouseUp s = s\<lparr>isMouseDown := False, mouseReleaseAfterConstructionPointCreation := True\<rparr>"

text \<open>The handler of \<open>contextmenu\<close> (a right click).\<close>

definition mouseDownRight :: "BezierCanvas \<Rightarrow> number \<Rightarrow> number \<Rightarrow> completion" where
  "mouseDownRight s u v =
     (let position = newPoint u v
      in case findClosestConstructionPoint s (x position) (y position) of
           None \<Rightarrow> Normal s
         | Some point \<Rightarrow> removeConstructionPoint s point)"

text \<open>
  The key handlers: \<open>keydown\<close> with the control key sets \<open>ctrlKeyIsDown\<close>, every
  \<open>keyup\<close> clears it.  (The undo and redo keys go to the history manager.)
\<close>

definition keyDown :: "BezierCanvas \<Rightarrow> bool \<Rightarrow> BezierCanvas" where
  "keyDown s ctrlKey = (if ctrlKey then s\<lparr>ctrlKeyIsDown := True\<rparr> else s)"

definition keyUp :: "BezierCanvas \<Rightarrow> BezierCanvas" where
  "keyUp s = s\<lparr>ctrlKeyIsDown := False\<rparr>"

text \<open>\<open>setOptions\<close>, for the options that are modelled.\<close>

definition setOptions :: "BezierCanvas \<Rightarrow> Options \<Rightarrow> BezierCanvas" where
  "setOptions s opts = s\<lparr>options := opts\<rparr>"

section \<open>The operations of the editor\<close>

text \<open>
  Every operation that changes the editor, as an event, and the state it leaves (for a
  handler that stops at a \<open>TypeError\<close>, the state at that point).  Undo and redo apply a
  snapshot by \<open>setPoints\<close>.
\<close>

datatype event =
    SetPoints "KnotRecord list"
  | Reset
  | SetOptions Options
  | MouseDownLeft number number
  | MouseMove number number
  | MouseUp
  | MouseDownRight number number
  | KeyDown bool
  | KeyUp

fun dispatch :: "BezierCanvas \<Rightarrow> event \<Rightarrow> BezierCanvas" where
  "dispatch s (SetPoints pts) = setPoints s pts"
| "dispatch s Reset = reset s"
| "dispatch s (SetOptions opts) = setOptions s opts"
| "dispatch s (MouseDownLeft u v) = stateOf (mouseDownLeft s u v)"
| "dispatch s (MouseMove u v) = stateOf (mouseMove s u v)"
| "dispatch s MouseUp = mouseUp s"
| "dispatch s (MouseDownRight u v) = stateOf (mouseDownRight s u v)"
| "dispatch s (KeyDown ctrlKey) = keyDown s ctrlKey"
| "dispatch s KeyUp = keyUp s"

definition run :: "BezierCanvas \<Rightarrow> event list \<Rightarrow> BezierCanvas" where
  "run s evs = foldl dispatch s evs"

text \<open>The states an editor can be in: those a sequence of events leads to.\<close>

inductive reachable :: "BezierCanvas \<Rightarrow> bool" where
  initial: "reachable (newBezierCanvas opts)"
| step: "reachable s \<Longrightarrow> reachable (dispatch s ev)"

text \<open>
  A knot owns its handles when the \<open>parent\<close> of each of them is that knot; its objects
  are allocated when their references are below \<open>Point.count\<close>.
\<close>

definition owned :: "BezierCanvas \<Rightarrow> ref \<Rightarrow> bool" where
  "owned s k =
     (parent (points s (handler1 (knots s k))) = Some k
      \<and> (case handler2 (knots s k) of None \<Rightarrow> True | Some h \<Rightarrow> parent (points s h) = Some k))"

definition allocated :: "BezierCanvas \<Rightarrow> ref \<Rightarrow> bool" where
  "allocated s k =
     (k < Point_count s \<and> handler1 (knots s k) < Point_count s
      \<and> (case handler2 (knots s k) of None \<Rightarrow> True | Some h \<Rightarrow> h < Point_count s))"

definition wellFormed :: "BezierCanvas \<Rightarrow> bool" where
  "wellFormed s = list_all (\<lambda>k. allocated s k \<and> owned s k) (constructionPoints s)"

section \<open>Regularly placed points\<close>

text \<open>The sampler of the segment between two consecutive knots, with the default \<open>len\<close>.\<close>

definition segmentSampler :: "BezierCanvas \<Rightarrow> ref \<Rightarrow> ref \<Rightarrow> BezierUtils" where
  "segmentSampler s currentPoint nextPoint =
     newBezierUtils (knotPoint s currentPoint) (points s (outgoingHandler s currentPoint))
       (points s (handler1 (knots s nextPoint))) (knotPoint s nextPoint) 200"

definition beziersOf :: "BezierCanvas \<Rightarrow> BezierUtils list" where
  "beziersOf s =
     map (\<lambda>index. segmentSampler s (constructionPoints s ! index) (constructionPoints s ! Suc index))
       [0..<length (constructionPoints s) - 1]"

text \<open>
  The body of the second loop of \<open>getRegularlyPlacedPoints\<close>, on the loop state
  \<open>(drawnNumber, currentDistance, points)\<close>.  The test \<open>index === bz.length - 1\<close> reads
  the field \<open>length\<close> of the sampler, which is \<open>undefined\<close>, and \<open>undefined - 1\<close> is
  \<open>NaN\<close>.  The inner loop runs while \<open>t < shapesToStick\<close>; it would not end for
  \<open>shapesToStick = Infinity\<close>, and the state \<open>None\<close> stands for that.
\<close>

definition placeStep ::
  "int \<Rightarrow> number \<Rightarrow> nat \<Rightarrow> (number \<times> number \<times> Point list) option \<Rightarrow> nat \<times> BezierUtils
     \<Rightarrow> (number \<times> number \<times> Point list) option" where
  "placeStep shapesCount length' beziersLength st ibz =
     (case st of
        None \<Rightarrow> None
      | Some (drawnNumber, currentDistance, pts) \<Rightarrow>
          (let index = fst ibz;
               bz = snd ibz;
               currentDistance' = currentDistance + getLength bz;
               shapesToStick0 = Math_floor ((currentDistance' / length') * Num (of_int shapesCount))
                                  - drawnNumber;
               shapesToStick = (if strictEq (Num (real index)) (NaN - Num 1)
                                then Num (of_int shapesCount) - drawnNumber else shapesToStick0);
               drawnNumber' = drawnNumber + shapesToStick;
               place = (\<lambda>t. if index = beziersLength - 1
                             then newPoint (mx bz (Num (real t) / (shapesToStick - Num 1)))
                                           (my bz (Num (real t) / (shapesToStick - Num 1)))
                             else newPoint (mx bz (Num (real t) / shapesToStick))
                                           (my bz (Num (real t) / shapesToStick)))
           in if Num 0 < shapesToStick then
                (case shapesToStick of
                   Num r \<Rightarrow> Some (drawnNumber', currentDistance', pts @ map place [0..<nat \<lceil>r\<rceil>])
                 | _ \<Rightarrow> None)
              else Some (drawnNumber', currentDistance', pts)))"

definition getRegularlyPlacedPoints :: "BezierCanvas \<Rightarrow> int \<Rightarrow> Point list option" where
  "getRegularlyPlacedPoints s shapesCount =
     (if length (constructionPoints s) < 2 then Some []
      else
        (let beziers = beziersOf s;
             length' = foldl (\<lambda>l bz. l + getLength bz) (Num 0) beziers
         in map_option (\<lambda>st. snd (snd st))
              (foldl (placeStep shapesCount length' (length beziers))
                 (Some (Num 0, Num 0, [])) (zip [0..<length beziers] beziers))))"

section \<open>The history manager\<close>

text \<open>
  \<open>HistoryManagerAbstract\<close>: a stack of snapshots, a cursor into it, the hash of the
  last pushed state and the capacity \<open>historySize\<close>.  The three abstract methods are
  parameters: \<open>getCurrentState\<close> and \<open>getCurrentStateHash\<close> are passed as values,
  and the operations that apply a snapshot return it with the new history.
\<close>

record ('s, 'h) HistoryManager =
  statesCursor :: int
  statesStack :: "'s list"
  lastHistoryStateHash :: "'h option"
  historySize :: int

definition safeStatesCursor :: "('s, 'h) HistoryManager \<Rightarrow> int \<Rightarrow> ('s, 'h) HistoryManager" where
  "safeStatesCursor h cursor =
     h\<lparr>statesCursor := max 0 (min (int (length (statesStack h)) - 1) cursor)\<rparr>"

definition removeFirstState :: "('s, 'h) HistoryManager \<Rightarrow> ('s, 'h) HistoryManager" where
  "removeFirstState h = h\<lparr>statesStack := tl (statesStack h)\<rparr>"

text \<open>
  \<open>statesBackward\<close> and \<open>statesForward\<close> return the snapshot handed to
  \<open>applyHistoryState\<close>, or \<open>None\<close> when the stack is empty and nothing is applied.
\<close>

definition statesBackward ::
  "('s, 'h) HistoryManager \<Rightarrow> ('s, 'h) HistoryManager \<times> 's option" where
  "statesBackward h =
     (if statesStack h \<noteq> [] then
        (let h' = safeStatesCursor h (statesCursor h - 1)
         in (h', Some (statesStack h' ! nat (statesCursor h'))))
      else (h, None))"

definition statesForward ::
  "('s, 'h) HistoryManager \<Rightarrow> ('s, 'h) HistoryManager \<times> 's option" where
  "statesForward h =
     (if statesStack h \<noteq> [] then
        (let h' = safeStatesCursor h (statesCursor h + 1)
         in (h', Some (statesStack h' ! nat (statesCursor h'))))
      else (h, None))"

text \<open>
  \<open>pushHistoryState(state)\<close>.  \<open>slice(0, statesCursor + 1)\<close> keeps the entries up to the
  cursor (the cursor is never negative); the first entry is dropped when the length is
  exactly \<open>historySize\<close>; the state is appended and the cursor moves to it.  The argument
  is \<open>None\<close> for a call without a state, which pushes \<open>getCurrentState()\<close> (\<open>cur\<close>).
\<close>

definition pushHistoryState ::
  "'s \<Rightarrow> ('s, 'h) HistoryManager \<Rightarrow> 's option \<Rightarrow> ('s, 'h) HistoryManager" where
  "pushHistoryState cur h state =
     (let h1 = h\<lparr>statesStack := take (nat (statesCursor h + 1)) (statesStack h)\<rparr>;
          h2 = (if int (length (statesStack h1)) = historySize h1 then removeFirstState h1 else h1);
          h3 = h2\<lparr>statesStack := statesStack h2 @ [case state of Some st \<Rightarrow> st | None \<Rightarrow> cur]\<rparr>
      in h3\<lparr>statesCursor := int (length (statesStack h3)) - 1\<rparr>)"

definition pushHistoryStateIfChanged ::
  "'s \<Rightarrow> 'h \<Rightarrow> ('s, 'h) HistoryManager \<Rightarrow> ('s, 'h) HistoryManager" where
  "pushHistoryStateIfChanged cur curHash h =
     (if Some curHash \<noteq> lastHistoryStateHash h
      then pushHistoryState cur (h\<lparr>lastHistoryStateHash := Some curHash\<rparr>) (Some cur)
      else h)"

definition historyReset :: "('s, 'h) HistoryManager \<Rightarrow> ('s, 'h) HistoryManager" where
  "historyReset h = h\<lparr>statesCursor := 0, statesStack := [], lastHistoryStateHash := None\<rparr>"

text \<open>A fresh manager of capacity \<open>n\<close>, as the constructor leaves it.\<close>

definition newHistoryManager :: "int \<Rightarrow> ('s, 'h) HistoryManager" where
  "newHistoryManager n =
     \<lparr>statesCursor = 0, statesStack = [], lastHistoryStateHash = None, historySize = n\<rparr>"

text \<open>Pushing a sequence of states, one \<open>pushHistoryState(state)\<close> call each.\<close>

definition pushAll :: "'s \<Rightarrow> ('s, 'h) HistoryManager \<Rightarrow> 's list \<Rightarrow> ('s, 'h) HistoryManager" where
  "pushAll cur h sts = foldl (\<lambda>h' st. pushHistoryState cur h' (Some st)) h sts"

section \<open>Auxiliary notions\<close>

text \<open>A state change that keeps the spline, the links and the allocated objects.\<close>

definition sameLinks :: "BezierCanvas \<Rightarrow> BezierCanvas \<Rightarrow> bool" where
  "sameLinks s s' =
     (constructionPoints s' = constructionPoints s \<and> Point_count s' = Point_count s
      \<and> (\<forall>k. handler1 (knots s' k) = handler1 (knots s k)
             \<and> handler2 (knots s' k) = handler2 (knots s k))
      \<and> (\<forall>h. parent (points s' h) = parent (points s h)))"

text \<open>The state of \<open>appendConstructionPoint\<close> once the new knot is in the array and its handle is the active point.\<close>

definition appended :: "BezierCanvas \<Rightarrow> Point \<Rightarrow> BezierCanvas" where
  "appended s position =
     (let s1 = s\<lparr>mouseReleaseAfterConstructionPointCreation := False\<rparr>;
          (h1, s2) = allocPoint s1 (newPoint (x position) (y position));
          (point, s3) = allocConstructionPoint s2 (x position) (y position) h1;
          (s4, activePoint) =
             (if naturalDrawMode (options s3)
              then (let (h2, s3') = allocPoint s3 (newPoint (x position) (y position))
                    in (setHandler2 s3' point (Some h2), h2))
              else (s3, h1));
          s5 = s4\<lparr>constructionPoints := constructionPoints s4 @ [point]\<rparr>
      in setActivePoint s5 (PointRef activePoint))"

section \<open>Example sessions\<close>

text \<open>
  A spline of one knot at \<open>(0, 0)\<close> with its handles at \<open>(1, 0)\<close> and \<open>(-1, 0)\<close>,
  imported into a fresh editor with the default options.  The handle at \<open>(1, 0)\<close> has the
  reference 0, the knot 1 and the handle at \<open>(-1, 0)\<close> 2.
\<close>

definition oneKnot :: BezierCanvas where
  "oneKnot = run (newBezierCanvas defaultOptions)
     [SetPoints [\<lparr>kx = Num 0, ky = Num 0, hp1 = (Num 1, Num 0), hp2 = Some (Num (- 1), Num 0)\<rparr>]]"

text \<open>
  The user holds the control key, presses the mouse on the first handle and drags it
  to \<open>(3, 4)\<close>.
\<close>

definition draggedHandle :: BezierCanvas where
  "draggedHandle =
     run oneKnot [KeyDown True, MouseDownLeft (Num 1) (Num 0), MouseMove (Num 3) (Num 4)]"

text \<open>
  In a fresh editor the user clicks at \<open>(0, 0)\<close> and releases without moving, which
  leaves a knot with both handles on it (the references are 0 for \<open>handler1\<close>, 1 for the
  knot, 2 for \<open>handler2\<close>); the user then holds the control key and presses the mouse
  at the same place, which selects \<open>handler2\<close>.
\<close>

definition collapsedKnot :: BezierCanvas where
  "collapsedKnot = run (newBezierCanvas defaultOptions)
     [MouseDownLeft (Num 0) (Num 0), MouseUp, KeyDown True, MouseDownLeft (Num 0) (Num 0)]"

text \<open>
  Two knots close to each other, at \<open>(0, 0)\<close> (reference 1) and at \<open>(6, 0)\<close>
  (reference 4), imported into a fresh editor with the default options.
\<close>

definition nearKnots :: BezierCanvas where
  "nearKnots = run (newBezierCanvas defaultOptions)
     [SetPoints [\<lparr>kx = Num 0, ky = Num 0, hp1 = (Num 0, Num 0), hp2 = Some (Num 2, Num 0)\<rparr>,
                 \<lparr>kx = Num 6, ky = Num 0, hp1 = (Num 4, Num 0), hp2 = Some (Num 6, Num 0)\<rparr>]]"

text \<open>The test of \<open>findClosestConstructionPoint\<close> on one knot.\<close>

definition withinMaxDistance :: "BezierCanvas \<Rightarrow> number \<Rightarrow> number \<Rightarrow> ref \<Rightarrow> bool" where
  "withinMaxDistance s u v r = (getDistance (newPoint u v) (knots s r) < maxDistance (options s))"

text \<open>
  A spline of two knots on a horizontal line, \<open>(0, 0)\<close> (reference 1) with its outgoing
  handle at \<open>(31, 0)\<close> (reference 2) and \<open>(90, 0)\<close> (reference 4) with its incoming
  handle at \<open>(60, 0)\<close> (reference 3), imported into a fresh editor with the default
  options; and the sessions in which the user clicks on the curve at its middle, at its
  start and at its end, which inserts a knot (reference 8, with the handles 6 and 7),
  releases the mouse, and removes that knot again by a right click on it.  At the end of
  the curve the right click would hit the last knot of the spline, which is at the same
  place; there the inserted knot is handed to \<open>removeConstructionPoint\<close> directly.
\<close>

definition lineSpline :: BezierCanvas where
  "lineSpline = run (newBezierCanvas defaultOptions)
     [SetPoints [\<lparr>kx = Num 0, ky = Num 0, hp1 = (Num 0, Num 0), hp2 = Some (Num 31, Num 0)\<rparr>,
                 \<lparr>kx = Num 90, ky = Num 0, hp1 = (Num 60, Num 0), hp2 = Some (Num 90, Num 0)\<rparr>]]"

definition midInserted :: BezierCanvas where
  "midInserted = dispatch lineSpline (MouseDownLeft (Num 45) (Num 0))"

definition midRemoved :: BezierCanvas where
  "midRemoved = run midInserted [MouseUp, MouseDownRight (Num 46) (Num 0)]"

definition startInserted :: BezierCanvas where
  "startInserted = dispatch lineSpline (MouseDownLeft (Num 0) (Num 0))"

definition startRemoved :: BezierCanvas where
  "startRemoved = run startInserted [MouseUp, MouseDownRight (Num 0) (Num 0)]"

definition endInserted :: BezierCanvas where
  "endInserted = dispatch lineSpline (MouseDownLeft (Num 90) (Num 0))"

definition endRemoved :: BezierCanvas where
  "endRemoved = stateOf (removeConstructionPoint (dispatch endInserted MouseUp) 8)"

text \<open>
  Finite numbers and points with finite coordinates; a table of finite, non-decreasing
  entries that starts at 0, as a list of reals; and the state of the constructor's loop
  when its table so far is such a list.
\<close>

fun isFinite :: "number \<Rightarrow> bool" where
  "isFinite (Num r) = True"
| "isFinite _ = False"

definition finitePoint :: "'e Point_scheme \<Rightarrow> bool" where
  "finitePoint p = (isFinite (x p) \<and> isFinite (y p))"






text \<open>
  Two knots imported at the same place \<open>(0, 0)\<close>, each with its handle on it: a spline
  of two knots and of length zero.
\<close>

definition stackedKnots :: BezierCanvas where
  "stackedKnots = run (newBezierCanvas defaultOptions)
     [SetPoints [\<lparr>kx = Num 0, ky = Num 0, hp1 = (Num 0, Num 0), hp2 = None\<rparr>,
                 \<lparr>kx = Num 0, ky = Num 0, hp1 = (Num 0, Num 0), hp2 = None\<rparr>]]"


text \<open>
  The coordinate that \<open>weighted\<close> computes before it is rounded, and the coordinates of
  the second and third level of De Casteljau's construction; a real that is an integer;
  a subdivision at \<open>t\<close> all of whose six points fall on integers, so that no rounding
  takes place.
\<close>

definition mix :: "real \<Rightarrow> real \<Rightarrow> real \<Rightarrow> real" where
  "mix t u v = u * (1 - t) + v * t"

definition onGrid :: "real \<Rightarrow> bool" where
  "onGrid r = (of_int \<lfloor>r\<rfloor> = r)"

definition mix2 :: "real \<Rightarrow> real \<Rightarrow> real \<Rightarrow> real \<Rightarrow> real" where
  "mix2 t u v w = mix t (mix t u v) (mix t v w)"

definition mix3 :: "real \<Rightarrow> real \<Rightarrow> real \<Rightarrow> real \<Rightarrow> real \<Rightarrow> real" where
  "mix3 t u v w z = mix t (mix2 t u v w) (mix2 t v w z)"

definition subdivisionOnGrid :: "real \<Rightarrow> real \<Rightarrow> real \<Rightarrow> real \<Rightarrow> real \<Rightarrow> bool" where
  "subdivisionOnGrid t u0 u1 u2 u3 =
     (onGrid (mix t u0 u1) \<and> onGrid (mix t u1 u2) \<and> onGrid (mix t u2 u3)
      \<and> onGrid (mix2 t u0 u1 u2) \<and> onGrid (mix2 t u1 u2 u3) \<and> onGrid (mix3 t u0 u1 u2 u3))"

text \<open>
  A spline of one segment with integer control points, imported into a fresh editor with
  the default options: the knot \<open>p0\<close> (reference 1) with its outgoing handle \<open>p1\<close>
  (reference 2), and the knot \<open>p3\<close> (reference 4) with its incoming handle \<open>p2\<close>
  (reference 3).  A knot inserted on it gets the reference 8.
\<close>

definition segmentSpline :: "int \<times> int \<Rightarrow> int \<times> int \<Rightarrow> int \<times> int \<Rightarrow> int \<times> int \<Rightarrow> BezierCanvas" where
  "segmentSpline p0 p1 p2 p3 = run (newBezierCanvas defaultOptions)
     [SetPoints [\<lparr>kx = Num (of_int (fst p0)), ky = Num (of_int (snd p0)),
                  hp1 = (Num (of_int (fst p0)), Num (of_int (snd p0))),
                  hp2 = Some (Num (of_int (fst p1)), Num (of_int (snd p1)))\<rparr>,
                 \<lparr>kx = Num (of_int (fst p3)), ky = Num (of_int (snd p3)),
                  hp1 = (Num (of_int (fst p2)), Num (of_int (snd p2))),
                  hp2 = Some (Num (of_int (fst p3)), Num (of_int (snd p3)))\<rparr>]]"


text \<open>A spline all of whose knots and handles have finite coordinates.\<close>

definition finiteSpline :: "BezierCanvas \<Rightarrow> bool" where
  "finiteSpline s =
     list_all (\<lambda>k. finitePoint (knots s k) \<and> finitePoint (points s (handler1 (knots s k)))
                   \<and> finitePoint (points s (outgoingHandler s k)))
       (constructionPoints s)"

text \<open>
  The four control points of the segment between the knots at the indices \<open>i\<close> and
  \<open>i + 1\<close> of the array, as \<open>findPointOnSpline\<close> and \<open>removeConstructionPoint\<close> read
  them: the knot, its outgoing handle, the incoming handle of the next knot, the next
  knot.
\<close>

definition controlPoints :: "BezierCanvas \<Rightarrow> nat \<Rightarrow> (number \<times> number) list" where
  "controlPoints s i =
     (let P0 = constructionPoints s ! i;
          P1 = outgoingHandler s P0;
          P3 = constructionPoints s ! Suc i;
          P2 = handler1 (knots s P3)
      in [(x (knots s P0), y (knots s P0)), (x (points s P1), y (points s P1)),
          (x (points s P2), y (points s P2)), (x (knots s P3), y (knots s P3))])"

text \<open>
  The knots of the array are distinct objects, and they are allocated: the next object
  will not be one of them.
\<close>

definition distinctKnots :: "BezierCanvas \<Rightarrow> bool" where
  "distinctKnots s =
     (distinct (constructionPoints s)
      \<and> list_all (\<lambda>k. k < Point_count s) (constructionPoints s))"

section \<open>Properties of the numbers\<close>

lemma minus_Num [simp]: "Num r - Num q = Num (r - q)"
  by (simp add: minus_number_def)

lemma Math_pow_2 [simp]: "Math_pow u 2 = u * u"
  by (simp add: numeral_2_eq_2)

lemma Math_pow_3 [simp]: "Math_pow u 3 = u * (u * u)"
  by (simp add: numeral_3_eq_3)

lemma sqrt_25: "sqrt 25 = 5"
  using real_sqrt_abs2 [of 5] by simp

text \<open>The definitions that an evaluation of an import and of the pointer events unfolds.\<close>

lemmas import_defs = run_def setPoints_def setPointsStep_def reset_def newBezierCanvas_def
  defaultOptions_def newPoint_def Let_def split_beta

lemmas event_defs = keyDown_def keyUp_def mouseUp_def mouseDownLeft_def selectPoint_def
  pointsToCheck_def selectStep_def objPoint_def knotPoint_def getDistance_def Point.truncate_def
  setActivePoint_def resetActivePoint_def resetActiveStep_def mouseMove_def constrainTangent_def
  strictEq_def findPointOnSpline_def appendConstructionPoint_def

section \<open>Properties of the stores\<close>

lemma updPoint_fields [simp]:
  "points (updPoint r f s) = (points s)(r := f (points s r))"
  "knots (updPoint r f s) = knots s"
  "Point_count (updPoint r f s) = Point_count s"
  "constructionPoints (updPoint r f s) = constructionPoints s"
  "currentMovingPoint (updPoint r f s) = currentMovingPoint s"
  "isMouseDown (updPoint r f s) = isMouseDown s"
  "ctrlKeyIsDown (updPoint r f s) = ctrlKeyIsDown s"
  "mouseReleaseAfterConstructionPointCreation (updPoint r f s)
     = mouseReleaseAfterConstructionPointCreation s"
  "options (updPoint r f s) = options s"
  by (simp_all add: updPoint_def)

lemma updKnot_fields [simp]:
  "points (updKnot r g s) = points s"
  "knots (updKnot r g s) = (knots s)(r := g (knots s r))"
  "Point_count (updKnot r g s) = Point_count s"
  "constructionPoints (updKnot r g s) = constructionPoints s"
  "currentMovingPoint (updKnot r g s) = currentMovingPoint s"
  "isMouseDown (updKnot r g s) = isMouseDown s"
  "ctrlKeyIsDown (updKnot r g s) = ctrlKeyIsDown s"
  "mouseReleaseAfterConstructionPointCreation (updKnot r g s)
     = mouseReleaseAfterConstructionPointCreation s"
  "options (updKnot r g s) = options s"
  by (simp_all add: updKnot_def)

section \<open>Ownership of the handles\<close>

lemma owned_iff:
  "owned s k \<longleftrightarrow>
     parent (points s (handler1 (knots s k))) = Some k
     \<and> (\<forall>h. handler2 (knots s k) = Some h \<longrightarrow> parent (points s h) = Some k)"
  by (simp add: owned_def split: option.splits)

lemma allocated_iff:
  "allocated s k \<longleftrightarrow>
     k < Point_count s \<and> handler1 (knots s k) < Point_count s
     \<and> (\<forall>h. handler2 (knots s k) = Some h \<longrightarrow> h < Point_count s)"
  by (simp add: allocated_def split: option.splits)

lemma sameLinks_refl [simp]: "sameLinks s s"
  by (simp add: sameLinks_def)

lemma sameLinks_trans: "sameLinks s s' \<Longrightarrow> sameLinks s' s'' \<Longrightarrow> sameLinks s s''"
  by (simp add: sameLinks_def)

lemma sameLinks_wellFormed: "sameLinks s s' \<Longrightarrow> wellFormed s \<Longrightarrow> wellFormed s'"
  by (auto simp: sameLinks_def wellFormed_def allocated_iff owned_iff list_all_iff)

lemma sameLinks_updPoint:
  "(\<And>p. parent (f p) = parent p) \<Longrightarrow> sameLinks s (updPoint r f s)"
  by (simp add: sameLinks_def)

lemma sameLinks_updKnot:
  "(\<And>q. handler1 (g q) = handler1 q \<and> handler2 (g q) = handler2 q) \<Longrightarrow> sameLinks s (updKnot r g s)"
  by (simp add: sameLinks_def)

lemma sameLinks_resetActiveStep: "sameLinks s (resetActiveStep s r)"
  by (simp add: sameLinks_def resetActiveStep_def Let_def split: option.splits)

lemma sameLinks_foldl_resetActiveStep: "sameLinks s (foldl resetActiveStep s l)"
proof (induction l arbitrary: s)
  case Nil
  show ?case by simp
next
  case (Cons r l)
  show ?case
    using sameLinks_trans [OF sameLinks_resetActiveStep Cons.IH] by simp
qed

lemma sameLinks_resetActivePoint: "sameLinks s (resetActivePoint s)"
  unfolding resetActivePoint_def by (rule sameLinks_foldl_resetActiveStep)

lemma sameLinks_setActivePoint: "sameLinks s (setActivePoint s point)"
proof -
  have "sameLinks (resetActivePoint s) (setActivePoint s point)"
    by (cases point) (simp_all add: setActivePoint_def sameLinks_def Let_def)
  then show ?thesis
    using sameLinks_trans [OF sameLinks_resetActivePoint] by blast
qed

lemma allocPoint_fields [simp]:
  "fst (allocPoint s p) = Point_count s"
  "points (snd (allocPoint s p)) = (points s)(Point_count s := p)"
  "knots (snd (allocPoint s p)) = knots s"
  "Point_count (snd (allocPoint s p)) = Suc (Point_count s)"
  "constructionPoints (snd (allocPoint s p)) = constructionPoints s"
  "currentMovingPoint (snd (allocPoint s p)) = currentMovingPoint s"
  "isMouseDown (snd (allocPoint s p)) = isMouseDown s"
  "ctrlKeyIsDown (snd (allocPoint s p)) = ctrlKeyIsDown s"
  "mouseReleaseAfterConstructionPointCreation (snd (allocPoint s p))
     = mouseReleaseAfterConstructionPointCreation s"
  "options (snd (allocPoint s p)) = options s"
  by (simp_all add: allocPoint_def)

lemma setHandler1_fields [simp]:
  "points (setHandler1 s k h) = (points s)(h := (points s h)\<lparr>parent := Some k\<rparr>)"
  "knots (setHandler1 s k h) = (knots s)(k := (knots s k)\<lparr>handler1 := h\<rparr>)"
  "Point_count (setHandler1 s k h) = Point_count s"
  "constructionPoints (setHandler1 s k h) = constructionPoints s"
  "currentMovingPoint (setHandler1 s k h) = currentMovingPoint s"
  "isMouseDown (setHandler1 s k h) = isMouseDown s"
  "ctrlKeyIsDown (setHandler1 s k h) = ctrlKeyIsDown s"
  "mouseReleaseAfterConstructionPointCreation (setHandler1 s k h)
     = mouseReleaseAfterConstructionPointCreation s"
  "options (setHandler1 s k h) = options s"
  by (simp_all add: setHandler1_def)

lemma setHandler2_fields [simp]:
  "points (setHandler2 s k ho)
     = (case ho of None \<Rightarrow> points s | Some h \<Rightarrow> (points s)(h := (points s h)\<lparr>parent := Some k\<rparr>))"
  "knots (setHandler2 s k ho) = (knots s)(k := (knots s k)\<lparr>handler2 := ho\<rparr>)"
  "Point_count (setHandler2 s k ho) = Point_count s"
  "constructionPoints (setHandler2 s k ho) = constructionPoints s"
  "currentMovingPoint (setHandler2 s k ho) = currentMovingPoint s"
  "isMouseDown (setHandler2 s k ho) = isMouseDown s"
  "ctrlKeyIsDown (setHandler2 s k ho) = ctrlKeyIsDown s"
  "mouseReleaseAfterConstructionPointCreation (setHandler2 s k ho)
     = mouseReleaseAfterConstructionPointCreation s"
  "options (setHandler2 s k ho) = options s"
  by (simp_all add: setHandler2_def Let_def split: option.splits)

lemma allocConstructionPoint_fields [simp]:
  "fst (allocConstructionPoint s u v h) = Point_count s"
  "points (snd (allocConstructionPoint s u v h))
     = (points s)(h := (points s h)\<lparr>parent := Some (Point_count s)\<rparr>)"
  "knots (snd (allocConstructionPoint s u v h))
     = (knots s)(Point_count s :=
         \<lparr>x = Math_round u, y = Math_round v, active = False, parent = None,
          handler1 = h, handler2 = None, fromCasteljau = False\<rparr>)"
  "Point_count (snd (allocConstructionPoint s u v h)) = Suc (Point_count s)"
  "constructionPoints (snd (allocConstructionPoint s u v h)) = constructionPoints s"
  "currentMovingPoint (snd (allocConstructionPoint s u v h)) = currentMovingPoint s"
  "isMouseDown (snd (allocConstructionPoint s u v h)) = isMouseDown s"
  "ctrlKeyIsDown (snd (allocConstructionPoint s u v h)) = ctrlKeyIsDown s"
  "mouseReleaseAfterConstructionPointCreation (snd (allocConstructionPoint s u v h))
     = mouseReleaseAfterConstructionPointCreation s"
  "options (snd (allocConstructionPoint s u v h)) = options s"
  by (simp_all add: allocConstructionPoint_def Let_def)

text \<open>wellFormed as a statement about every knot of the spline.\<close>

lemma wellFormed_iff:
  "wellFormed s \<longleftrightarrow> (\<forall>k \<in> set (constructionPoints s). allocated s k \<and> owned s k)"
  by (simp add: wellFormed_def list_all_iff)

lemma wellFormed_setPointsStep: "wellFormed s \<Longrightarrow> wellFormed (setPointsStep s point)"
  unfolding wellFormed_iff
  by (auto simp: setPointsStep_def Let_def split_beta allocated_iff owned_iff
      split: option.splits)

lemma wellFormed_reset: "wellFormed (reset s)"
  by (simp add: wellFormed_def reset_def)

lemma wellFormed_foldl_setPointsStep:
  "wellFormed s \<Longrightarrow> wellFormed (foldl setPointsStep s pts)"
  by (induction pts arbitrary: s) (simp_all add: wellFormed_setPointsStep)

lemma wellFormed_setPoints: "wellFormed (setPoints s pts)"
  unfolding setPoints_def by (rule wellFormed_foldl_setPointsStep [OF wellFormed_reset])

lemma wellFormed_setActivePoint: "wellFormed s \<Longrightarrow> wellFormed (setActivePoint s point)"
  by (rule sameLinks_wellFormed [OF sameLinks_setActivePoint])

text \<open>Inserting into or cutting from the array keeps or shrinks its set of knots.\<close>

lemma set_insertAfter_step:
  "set (if l ! i = P then take (Suc i) l @ n # drop (Suc i) l else l) \<subseteq> insert n (set l)"
proof -
  have "set (take (Suc i) l) \<union> set (drop (Suc i) l) \<subseteq> set l"
    by (metis append_take_drop_id set_append subset_refl)
  then show ?thesis by auto
qed

lemma set_insertAfter_foldl:
  "set (foldl (\<lambda>l index. if l ! index = P then take (Suc index) l @ n # drop (Suc index) l else l)
          cps is) \<subseteq> insert n (set cps)"
proof (induction "is" arbitrary: cps)
  case Nil
  show ?case by auto
next
  case (Cons i "is")
  let ?l = "if cps ! i = P then take (Suc i) cps @ n # drop (Suc i) cps else cps"
  have "set (foldl (\<lambda>l index. if l ! index = P then take (Suc index) l @ n # drop (Suc index) l else l)
          ?l is) \<subseteq> insert n (set ?l)"
    by (rule Cons.IH)
  moreover have "set ?l \<subseteq> insert n (set cps)"
    by (rule set_insertAfter_step)
  ultimately show ?case by auto
qed

lemma set_insertAfter: "set (insertAfter cps P n) \<subseteq> insert n (set cps)"
  unfolding insertAfter_def by (rule set_insertAfter_foldl)

lemma set_spliceOut: "set (spliceOut cps foundIndex) \<subseteq> set cps"
proof (cases foundIndex)
  case None
  then show ?thesis by (auto simp: spliceOut_def dest: in_set_dropD)
next
  case (Some i)
  then show ?thesis by (auto simp: spliceOut_def dest: in_set_dropD in_set_takeD)
qed

text \<open>Well-formedness passes to a state with fewer knots in the array.\<close>

lemma wellFormed_subset:
  assumes "wellFormed s" and "set cps \<subseteq> set (constructionPoints s)"
  shows "wellFormed (s\<lparr>constructionPoints := cps\<rparr>)"
  using assms unfolding wellFormed_iff by (auto simp: allocated_iff owned_iff)

lemma setActivePoint_links [simp]:
  "handler1 (knots (setActivePoint s point) k) = handler1 (knots s k)"
  "handler2 (knots (setActivePoint s point) k) = handler2 (knots s k)"
  "parent (points (setActivePoint s point) h) = parent (points s h)"
  "Point_count (setActivePoint s point) = Point_count s"
  "constructionPoints (setActivePoint s point) = constructionPoints s"
  using sameLinks_setActivePoint [of s point] by (simp_all add: sameLinks_def)

lemma setActivePoint_options [simp]: "options (setActivePoint s point) = options s"
proof -
  have "options (foldl resetActiveStep s' l) = options s'" for s' l
    by (induction l arbitrary: s')
       (simp_all add: resetActiveStep_def Let_def split: option.splits)
  then show ?thesis
    by (cases point) (simp_all add: setActivePoint_def resetActivePoint_def Let_def)
qed

lemma knotInsertion_links:
  "Point_count (knotInsertion s t P0 P1 P2 P3) = Suc (Suc (Suc (Point_count s)))"
  "handler1 (knots (knotInsertion s t P0 P1 P2 P3) k)
     = (if k = Suc (Suc (Point_count s)) then Point_count s else handler1 (knots s k))"
  "handler2 (knots (knotInsertion s t P0 P1 P2 P3) k)
     = (if k = Suc (Suc (Point_count s)) then Some (Suc (Point_count s)) else handler2 (knots s k))"
  "parent (points (knotInsertion s t P0 P1 P2 P3) h)
     = (if h = Point_count s \<or> h = Suc (Point_count s) then Some (Suc (Suc (Point_count s)))
        else parent (points s h))"
  by (simp_all add: knotInsertion_def Let_def split_beta)

lemma knotInsertion_set:
  "set (constructionPoints (knotInsertion s t P0 P1 P2 P3))
     \<subseteq> insert (Suc (Suc (Point_count s))) (set (constructionPoints s))"
  using set_insertAfter [of "constructionPoints s" P0 "Suc (Suc (Point_count s))"]
  by (simp add: knotInsertion_def Let_def split_beta)

lemma wellFormed_knotInsertion:
  assumes "wellFormed s"
  shows "wellFormed (knotInsertion s t P0 P1 P2 P3)"
  unfolding wellFormed_iff
proof
  fix k
  assume "k \<in> set (constructionPoints (knotInsertion s t P0 P1 P2 P3))"
  then consider "k = Suc (Suc (Point_count s))" | "k \<in> set (constructionPoints s)"
    using knotInsertion_set [of s t P0 P1 P2 P3] by blast
  then show "allocated (knotInsertion s t P0 P1 P2 P3) k \<and> owned (knotInsertion s t P0 P1 P2 P3) k"
  proof cases
    case 1
    then show ?thesis
      by (simp add: allocated_iff owned_iff knotInsertion_links)
  next
    case 2
    then have "allocated s k" "owned s k"
      using assms by (simp_all add: wellFormed_iff)
    then show ?thesis
      by (auto simp: allocated_iff owned_iff knotInsertion_links)
  qed
qed

text \<open>Dropping the second handle of a knot, and giving a knot a fresh handle.\<close>

lemma wellFormed_dropHandler2: "wellFormed s \<Longrightarrow> wellFormed (setHandler2 s k None)"
  unfolding wellFormed_iff by (auto simp: allocated_iff owned_iff)

lemma wellFormed_freshHandler1:
  assumes "wellFormed s" and "k \<in> set (constructionPoints s)"
  shows "wellFormed (setHandler1 (snd (allocPoint s p)) k (fst (allocPoint s p)))"
  using assms unfolding wellFormed_iff by (auto simp: allocated_iff owned_iff)

lemma wellFormed_freshHandler2:
  assumes "wellFormed s" and "k \<in> set (constructionPoints s)"
  shows "wellFormed (setHandler2 (snd (allocPoint s p)) k (Some (fst (allocPoint s p))))"
  using assms unfolding wellFormed_iff by (auto simp: allocated_iff owned_iff)

lemma wellFormed_enforceCardinality:
  assumes "wellFormed s"
  shows "wellFormed (enforceCardinality s)"
proof (cases "constructionPoints s \<noteq> [] \<and> \<not> naturalDrawMode (options s)")
  case False
  then show ?thesis using assms by (auto simp: enforceCardinality_def)
next
  case True
  let ?first = "constructionPoints s ! 0"
  have first: "?first \<in> set (constructionPoints s)"
    using True by simp
  define s1 where "s1 = (case handler2 (knots s ?first) of
                     None \<Rightarrow> s
                   | Some h \<Rightarrow>
                       (let (h', s') = allocPoint s (clone (points s h))
                        in setHandler2 (setHandler1 s' ?first h') ?first None))"
  have "wellFormed s1"
  proof (cases "handler2 (knots s ?first)")
    case None
    then show ?thesis using assms by (simp add: s1_def)
  next
    case (Some h)
    then show ?thesis
      using wellFormed_dropHandler2 [OF wellFormed_freshHandler1 [OF assms first]]
      by (simp add: s1_def split_beta)
  qed
  then have "wellFormed (setHandler2 s1 (constructionPoints s1 ! (length (constructionPoints s1) - 1)) None)"
    by (rule wellFormed_dropHandler2)
  then show ?thesis
    using True by (simp add: enforceCardinality_def s1_def Let_def)
qed

lemma sameLinks_reverseCasteljau: "sameLinks s (stateOf (reverseCasteljau s f P0 P3))"
  by (simp add: reverseCasteljau_def Let_def sameLinks_def split: option.splits)

lemma reverseCasteljau_cases:
  "reverseCasteljau s f P0 P3 = Normal (stateOf (reverseCasteljau s f P0 P3))
   \<or> reverseCasteljau s f P0 P3 = TypeError s"
  by (simp add: reverseCasteljau_def Let_def split: option.splits)

lemma wellFormed_removeConstructionPoint:
  assumes "wellFormed s"
  shows "wellFormed (stateOf (removeConstructionPoint s point))"
proof -
  define s1 where "s1 = (if currentMovingPoint s = Some (ConstructionPointRef point)
                then s\<lparr>currentMovingPoint := None\<rparr> else s)"
  define foundIndex where "foundIndex = foundIndexOf (constructionPoints s1) point"
  define P0 where "P0 = (case foundIndex of None \<Rightarrow> None
                         | Some i \<Rightarrow> arrayAt (constructionPoints s1) (int i - 1))"
  define P3 where "P3 = (case foundIndex of None \<Rightarrow> None
                         | Some i \<Rightarrow> arrayAt (constructionPoints s1) (int i + 1))"
  define fused where "fused = (case (fromCasteljau (knots s1 point), P0, P3) of
                     (True, Some p0, Some p3) \<Rightarrow> reverseCasteljau s1 point p0 p3
                   | _ \<Rightarrow> Normal s1)"
  have s1: "wellFormed s1"
    using assms by (simp add: s1_def wellFormed_iff allocated_iff owned_iff)
  have links: "sameLinks s1 (stateOf fused)"
    unfolding fused_def
    by (auto split: bool.splits option.splits intro: sameLinks_reverseCasteljau)
  have fused: "wellFormed (stateOf fused)"
    by (rule sameLinks_wellFormed [OF links s1])
  have cps: "constructionPoints (stateOf fused) = constructionPoints s1"
    using links by (simp add: sameLinks_def)
  have unfold: "removeConstructionPoint s point
      = (case fused of TypeError s2 \<Rightarrow> TypeError s2
         | Normal s2 \<Rightarrow> Normal (enforceCardinality
             (s2\<lparr>constructionPoints := spliceOut (constructionPoints s1) foundIndex\<rparr>)))"
    unfolding removeConstructionPoint_def Let_def fused_def P0_def P3_def foundIndex_def s1_def
    by (rule refl)
  show ?thesis
  proof (cases fused)
    case (TypeError s2)
    then show ?thesis using fused unfold by simp
  next
    case (Normal s2)
    have "wellFormed (s2\<lparr>constructionPoints := spliceOut (constructionPoints s1) foundIndex\<rparr>)"
      using wellFormed_subset [of s2 "spliceOut (constructionPoints s1) foundIndex"]
        fused cps set_spliceOut [of "constructionPoints s1" foundIndex] Normal by simp
    then show ?thesis
      using unfold Normal by (simp add: wellFormed_enforceCardinality)
  qed
qed

lemma wellFormed_appended:
  assumes "wellFormed s"
  shows "wellFormed (appended s position)"
  using assms unfolding wellFormed_iff
  by (auto simp: appended_def Let_def split_beta allocated_iff owned_iff)

lemma appendConstructionPoint_unfold:
  "appendConstructionPoint s position =
     (let s6 = appended s position
      in if 2 < length (constructionPoints s6) then
           (let D = constructionPoints s6 ! (length (constructionPoints s6) - 2);
                smooth = smoothFactor (options s6)
            in if naturalDrawMode (options s6) then
                 (case handler2 (knots s6 D) of
                    None \<Rightarrow> TypeError s6
                  | Some dh \<Rightarrow>
                      (let (h, s7) = allocPoint s6
                             (newPoint (x (knots s6 D) - smooth * (x (points s6 dh) - x (knots s6 D)))
                                       (y (knots s6 D) - smooth * (y (points s6 dh) - y (knots s6 D))))
                       in Normal (setHandler1 s7 D h)))
               else
                 (let dh = handler1 (knots s6 D);
                      (h, s7) = allocPoint s6
                             (newPoint (x (knots s6 D) - smooth * (x (points s6 dh) - x (knots s6 D)))
                                       (y (knots s6 D) - smooth * (y (points s6 dh) - y (knots s6 D))))
                  in Normal (setHandler2 s7 D (Some h))))
         else Normal s6)"
  unfolding appendConstructionPoint_def appended_def Let_def split_beta by (rule refl)

lemma wellFormed_appendConstructionPoint:
  assumes "wellFormed s"
  shows "wellFormed (stateOf (appendConstructionPoint s position))"
proof -
  let ?s6 = "appended s position"
  have s6: "wellFormed ?s6"
    by (rule wellFormed_appended [OF assms])
  show ?thesis
  proof (cases "2 < length (constructionPoints ?s6)")
    case False
    then show ?thesis using s6 by (simp add: appendConstructionPoint_unfold Let_def)
  next
    case True
    let ?D = "constructionPoints ?s6 ! (length (constructionPoints ?s6) - 2)"
    have D: "?D \<in> set (constructionPoints ?s6)"
      using True by simp
    show ?thesis
      using True s6 wellFormed_freshHandler1 [OF s6 D] wellFormed_freshHandler2 [OF s6 D]
      by (simp add: appendConstructionPoint_unfold Let_def split_beta split: option.splits)
  qed
qed

lemma sameLinks_constrainTangent:
  "constrainTangent s position par opposite = Some s' \<Longrightarrow> sameLinks s s'"
  by (auto simp: constrainTangent_def Let_def sameLinks_def split: if_splits)

lemma sameLinks_mouseMove: "sameLinks s (stateOf (mouseMove s u v))"
proof -
  have move: "sameLinks s (updPoint r (\<lambda>p. p\<lparr>x := m, y := n\<rparr>) s')" if "sameLinks s s'" for r m n s'
    using that by (simp add: sameLinks_def)
  show ?thesis
    unfolding mouseMove_def Let_def
    by (auto split: option.splits objref.splits
        intro!: move dest: sameLinks_constrainTangent simp: sameLinks_def)
qed

lemma wellFormed_mouseMove: "wellFormed s \<Longrightarrow> wellFormed (stateOf (mouseMove s u v))"
  by (rule sameLinks_wellFormed [OF sameLinks_mouseMove])

lemma wellFormed_flags:
  "wellFormed s \<Longrightarrow> wellFormed (s\<lparr>isMouseDown := f\<rparr>)"
  "wellFormed s \<Longrightarrow> wellFormed (s\<lparr>ctrlKeyIsDown := f\<rparr>)"
  "wellFormed s \<Longrightarrow> wellFormed (s\<lparr>currentMovingPoint := m\<rparr>)"
  "wellFormed s \<Longrightarrow> wellFormed (s\<lparr>options := opts\<rparr>)"
  "wellFormed s \<Longrightarrow>
     wellFormed (s\<lparr>isMouseDown := f, mouseReleaseAfterConstructionPointCreation := g\<rparr>)"
  by (simp_all add: wellFormed_iff allocated_iff owned_iff)

lemma wellFormed_mouseDownLeft:
  assumes "wellFormed s"
  shows "wellFormed (stateOf (mouseDownLeft s u v))"
proof -
  have s1: "wellFormed (s\<lparr>isMouseDown := True\<rparr>)"
    by (rule wellFormed_flags(1) [OF assms])
  show ?thesis
    unfolding mouseDownLeft_def Let_def
    using s1
    by (auto split: option.splits
        intro: wellFormed_flags wellFormed_setActivePoint wellFormed_knotInsertion
          wellFormed_appendConstructionPoint)
qed

lemma wellFormed_mouseDownRight:
  "wellFormed s \<Longrightarrow> wellFormed (stateOf (mouseDownRight s u v))"
  by (auto simp: mouseDownRight_def Let_def split: option.splits
      intro: wellFormed_removeConstructionPoint)

lemma wellFormed_newBezierCanvas: "wellFormed (newBezierCanvas opts)"
  by (simp add: wellFormed_def newBezierCanvas_def)

lemma wellFormed_dispatch: "wellFormed s \<Longrightarrow> wellFormed (dispatch s ev)"
proof (cases ev)
  case (SetPoints pts)
  then show ?thesis by (simp add: wellFormed_setPoints)
next
  case Reset
  then show ?thesis by (simp add: wellFormed_reset)
next
  case (SetOptions opts)
  assume "wellFormed s"
  then show ?thesis using SetOptions by (simp add: setOptions_def wellFormed_flags)
next
  case (MouseDownLeft u v)
  assume "wellFormed s"
  then show ?thesis using MouseDownLeft by (simp add: wellFormed_mouseDownLeft)
next
  case (MouseMove u v)
  assume "wellFormed s"
  then show ?thesis using MouseMove by (simp add: wellFormed_mouseMove)
next
  case MouseUp
  assume "wellFormed s"
  then show ?thesis using MouseUp by (simp add: mouseUp_def wellFormed_flags)
next
  case (MouseDownRight u v)
  assume "wellFormed s"
  then show ?thesis using MouseDownRight by (simp add: wellFormed_mouseDownRight)
next
  case (KeyDown ctrlKey)
  assume "wellFormed s"
  then show ?thesis using KeyDown by (simp add: keyDown_def wellFormed_flags)
next
  case KeyUp
  assume "wellFormed s"
  then show ?thesis using KeyUp by (simp add: keyUp_def wellFormed_flags)
qed

lemma reachable_wellFormed: "reachable s \<Longrightarrow> wellFormed s"
  by (induction rule: reachable.induct) (simp_all add: wellFormed_newBezierCanvas wellFormed_dispatch)

lemma reachable_run: "reachable s \<Longrightarrow> reachable (run s evs)"
  unfolding run_def by (induction evs arbitrary: s) (simp_all add: reachable.step)

text \<open>
  Claim C10: in every state the editor can reach by its operations (import, reset, a
  change of options, clicks that append, insert, select or remove, drags, key events),
  each handle of each knot of the spline has that knot as its \<open>parent\<close>.
\<close>

theorem handles_owned_by_their_knot:
  assumes "reachable s" and "k \<in> set (constructionPoints s)"
  shows "parent (points s (handler1 (knots s k))) = Some k
       \<and> (\<forall>h. handler2 (knots s k) = Some h \<longrightarrow> parent (points s h) = Some k)"
  using reachable_wellFormed [OF assms(1)] assms(2)
  by (simp add: wellFormed_iff owned_iff)


theorem handles_owned_by_their_knot_witness:
  "parent (points oneKnot (handler1 (knots oneKnot 1))) = Some 1
   \<and> handler2 (knots oneKnot 1) = Some 2 \<and> parent (points oneKnot 2) = Some 1"
proof -
  have "reachable oneKnot"
    unfolding oneKnot_def by (rule reachable_run [OF reachable.initial])
  moreover have "1 \<in> set (constructionPoints oneKnot)"
    and "handler2 (knots oneKnot 1) = Some 2"
    by (simp_all add: oneKnot_def import_defs)
  ultimately show ?thesis
    using handles_owned_by_their_knot [of oneKnot 1] by simp
qed

section \<open>Coordinates after a drag with the tangent constraint\<close>

text \<open>
  Claim C8 at a drag: the knot is at \<open>(0, 0)\<close>, the handle opposite the dragged one is at
  distance 1 and the pointer at distance 5, so the opposite handle is set to
  \<open>(0 + (1 / 5) * (0 - 3), 0 + (1 / 5) * (0 - 4))\<close>, which is stored as it is: its
  coordinates are not integers.
\<close>

theorem tangent_constraint_stores_fractions:
  "constructionPoints draggedHandle = [1]
   \<and> handler2 (knots draggedHandle 1) = Some 2
   \<and> x (points draggedHandle 2) = Num (- 3 / 5)
   \<and> y (points draggedHandle 2) = Num (- 4 / 5)"
  by (simp add: draggedHandle_def oneKnot_def import_defs event_defs sqrt_25)

text \<open>
  Claim C6 at the state after that drag: the export holds the fractions, the import
  rounds them, and the export of the imported spline differs from the first export.
\<close>

theorem round_trip_after_drag:
  "getPoints draggedHandle
     = [\<lparr>kx = Num 0, ky = Num 0, hp1 = (Num 3, Num 4), hp2 = Some (Num (- 3 / 5), Num (- 4 / 5))\<rparr>]
   \<and> getPoints (setPoints draggedHandle (getPoints draggedHandle))
     = [\<lparr>kx = Num 0, ky = Num 0, hp1 = (Num 3, Num 4), hp2 = Some (Num (- 1), Num (- 1))\<rparr>]"
  by (simp add: draggedHandle_def oneKnot_def import_defs event_defs sqrt_25 getPoints_def
      getPointsStep_def)

text \<open>
  Claim C7 at a drag onto the knot: \<open>handler2\<close> of the collapsed knot is the active
  point and the pointer moves without leaving \<open>(0, 0)\<close>.  Both distances are zero, the
  ratio is \<open>NaN\<close>, which is not \<open>0\<close>, and \<open>handler1\<close> (reference 0), which was at
  \<open>(0, 0)\<close>, is rewritten to \<open>(NaN, NaN)\<close>.
\<close>

theorem tangent_constraint_zero_distances:
  "currentMovingPoint collapsedKnot = Some (PointRef 2)
   \<and> handler1 (knots collapsedKnot 1) = 0 \<and> handler2 (knots collapsedKnot 1) = Some 2
   \<and> x (points collapsedKnot 0) = Num 0 \<and> y (points collapsedKnot 0) = Num 0
   \<and> x (points (dispatch collapsedKnot (MouseMove (Num 0) (Num 0))) 0) = NaN
   \<and> y (points (dispatch collapsedKnot (MouseMove (Num 0) (Num 0))) 0) = NaN"
  by (simp add: collapsedKnot_def import_defs event_defs)

section \<open>Properties of the history manager\<close>

lemma pushAll_snoc:
  "pushAll cur h (sts @ [st]) = pushHistoryState cur (pushAll cur h sts) (Some st)"
  by (simp add: pushAll_def)

lemma pushAll_historySize: "historySize (pushAll cur h sts) = historySize h"
  by (induction sts rule: rev_induct)
     (simp_all add: pushAll_def pushHistoryState_def removeFirstState_def Let_def)

lemma pushHistoryState_historySize [simp]:
  "historySize (pushHistoryState cur h state) = historySize h"
  by (simp add: pushHistoryState_def removeFirstState_def Let_def)

text \<open>
  One push onto a history whose cursor is at the last entry (or whose stack is empty):
  nothing is truncated, and the oldest entry goes exactly when the stack is full.
\<close>

lemma pushHistoryState_at_end:
  assumes "statesStack h = [] \<or> statesCursor h + 1 = int (length (statesStack h))"
  shows "statesStack (pushHistoryState cur h (Some st))
           = (if int (length (statesStack h)) = historySize h then tl (statesStack h)
              else statesStack h) @ [st]"
    and "statesCursor (pushHistoryState cur h (Some st)) + 1
           = int (length (statesStack (pushHistoryState cur h (Some st))))"
proof -
  have "take (nat (statesCursor h + 1)) (statesStack h) = statesStack h"
    using assms by auto
  then show "statesStack (pushHistoryState cur h (Some st))
           = (if int (length (statesStack h)) = historySize h then tl (statesStack h)
              else statesStack h) @ [st]"
    by (simp add: pushHistoryState_def removeFirstState_def Let_def)
  show "statesCursor (pushHistoryState cur h (Some st)) + 1
           = int (length (statesStack (pushHistoryState cur h (Some st))))"
    by (simp add: pushHistoryState_def Let_def)
qed

text \<open>The window of the last \<open>n\<close> entries of a list, moved by one entry.\<close>

lemma window_snoc:
  fixes n :: nat
  assumes "1 \<le> n"
  shows "(if length (drop (length zs - n) zs) = n then tl (drop (length zs - n) zs)
          else drop (length zs - n) zs) @ [z]
         = drop (length (zs @ [z]) - n) (zs @ [z])"
proof (cases "length zs < n")
  case True
  then show ?thesis by simp
next
  case False
  have "tl (drop (length zs - n) zs) = drop (Suc (length zs - n)) zs"
    by (simp add: drop_Suc tl_drop)
  then show ?thesis
    using False assms by (simp add: Suc_diff_le)
qed

text \<open>
  Pushing onto such a history of capacity \<open>n \<ge> 1\<close> that is not over capacity keeps the
  last \<open>n\<close> entries of the old stack followed by the pushed states.
\<close>

lemma pushAll_at_end:
  assumes "1 \<le> historySize h"
    and "length (statesStack h) \<le> nat (historySize h)"
    and "statesStack h = [] \<or> statesCursor h + 1 = int (length (statesStack h))"
  shows "statesStack (pushAll cur h sts)
           = drop (length (statesStack h @ sts) - nat (historySize h)) (statesStack h @ sts)
       \<and> (statesStack (pushAll cur h sts) = []
            \<or> statesCursor (pushAll cur h sts) + 1 = int (length (statesStack (pushAll cur h sts))))"
proof (induction sts rule: rev_induct)
  case Nil
  show ?case using assms by (simp add: pushAll_def)
next
  case (snoc st sts)
  define zs where "zs = statesStack h @ sts"
  define n where "n = nat (historySize h)"
  let ?h = "pushAll cur h sts"
  have n: "1 \<le> n" "historySize h = int n"
    using assms(1) by (simp_all add: n_def)
  have size: "historySize ?h = historySize h"
    by (rule pushAll_historySize)
  have stack: "statesStack ?h = drop (length zs - n) zs"
    using snoc.IH unfolding zs_def n_def by (rule conjunct1)
  have at_end: "statesStack ?h = [] \<or> statesCursor ?h + 1 = int (length (statesStack ?h))"
    using snoc.IH by (rule conjunct2)
  have "statesStack (pushAll cur h (sts @ [st]))
           = (if int (length (statesStack ?h)) = historySize h then tl (statesStack ?h)
              else statesStack ?h) @ [st]"
    unfolding pushAll_snoc using pushHistoryState_at_end(1) [OF at_end, of cur st] size by simp
  also have "\<dots> = (if length (drop (length zs - n) zs) = n then tl (drop (length zs - n) zs)
          else drop (length zs - n) zs) @ [st]"
    unfolding stack n(2) by simp
  also have "\<dots> = drop (length (zs @ [st]) - n) (zs @ [st])"
    by (rule window_snoc [OF n(1)])
  finally have step: "statesStack (pushAll cur h (sts @ [st]))
           = drop (length (statesStack h @ sts @ [st]) - nat (historySize h))
               (statesStack h @ sts @ [st])"
    unfolding zs_def n_def by simp
  have cursor: "statesCursor (pushAll cur h (sts @ [st])) + 1
           = int (length (statesStack (pushAll cur h (sts @ [st]))))"
    unfolding pushAll_snoc by (rule pushHistoryState_at_end(2) [OF at_end])
  show ?case
    using step cursor by blast
qed

text \<open>
  Claim C9, for a capacity of at least one.  On any history that is not over capacity
  (a fresh one in particular), wherever its cursor stands, \<open>historySize + k\<close> pushes
  with \<open>k > 0\<close> leave exactly \<open>historySize\<close> snapshots; they are the last
  \<open>historySize\<close> states pushed, so the oldest went first; and the cursor is at the last
  entry.
\<close>

theorem history_bounds:
  assumes "1 \<le> historySize h"
    and "length (statesStack h) \<le> nat (historySize h)"
    and "0 < k"
    and "length sts = nat (historySize h) + k"
  shows "length (statesStack (pushAll cur h sts)) = nat (historySize h)
       \<and> statesStack (pushAll cur h sts) = drop k sts
       \<and> statesCursor (pushAll cur h sts) = historySize h - 1"
proof -
  let ?n = "nat (historySize h)"
  obtain st rest where sts: "sts = st # rest"
    using assms(3,4) by (cases sts) auto
  let ?h1 = "pushHistoryState cur h (Some st)"
  let ?kept = "statesStack ?h1"
  have split: "pushAll cur h sts = pushAll cur ?h1 rest"
    by (simp add: sts pushAll_def)
  have "\<exists>old. ?kept = old @ [st] \<and> length old < ?n"
    using assms(1,2) by (auto simp: pushHistoryState_def removeFirstState_def Let_def)
  then obtain old where kept: "?kept = old @ [st]" and old: "length old < ?n"
    by blast
  have size1: "historySize ?h1 = historySize h"
    by simp
  have at_end: "?kept = [] \<or> statesCursor ?h1 + 1 = int (length ?kept)"
    by (simp add: pushHistoryState_def Let_def)
  have bound: "length ?kept \<le> nat (historySize ?h1)"
    using kept old by simp
  have pos1: "1 \<le> historySize ?h1"
    using assms(1) by simp
  note run = pushAll_at_end [OF pos1 bound at_end, of cur rest]
  have len: "length rest = ?n + k - 1"
    using assms(4) sts by simp
  have "length (?kept @ rest) - ?n = length old + k"
    using kept len assms(3) by simp
  then have stack: "statesStack (pushAll cur h sts) = drop k sts"
    using run kept unfolding split size1 by (simp add: sts)
  have nonempty: "statesStack (pushAll cur h sts) \<noteq> []"
    using stack assms(1,3,4) by simp
  have "statesCursor (pushAll cur h sts) + 1 = int (length (statesStack (pushAll cur h sts)))"
    using run nonempty unfolding split by blast
  then show ?thesis
    using stack assms(1,4) by simp
qed

theorem history_bounds_witness:
  "statesStack (pushAll (0::nat) (newHistoryManager 2 :: (nat, nat) HistoryManager) [1, 2, 3])
     = [2, 3]
   \<and> statesCursor (pushAll (0::nat) (newHistoryManager 2 :: (nat, nat) HistoryManager) [1, 2, 3])
     = 1"
  using history_bounds [of "newHistoryManager 2 :: (nat, nat) HistoryManager" 1 "[1, 2, 3]" 0]
  by (simp add: newHistoryManager_def)

text \<open>
  With a capacity of zero the length test of \<open>pushHistoryState\<close> only succeeds on the
  empty stack, where there is nothing to drop: two pushes leave two snapshots.
\<close>

theorem history_bounds_counterexample:
  "statesStack (pushAll (0::nat) (newHistoryManager 0 :: (nat, nat) HistoryManager) [1, 2]) = [1, 2]
   \<and> length (statesStack (pushAll (0::nat) (newHistoryManager 0 :: (nat, nat) HistoryManager) [1, 2]))
     \<noteq> nat (historySize (newHistoryManager 0 :: (nat, nat) HistoryManager))"
  by (simp add: pushAll_def pushHistoryState_def removeFirstState_def newHistoryManager_def Let_def)

section \<open>The nearest-knot hit test\<close>

text \<open>The distance of two points on a horizontal line.\<close>

lemma getDistance_horizontal:
  "getDistance \<lparr>x = Num r, y = Num w, active = a1, parent = p1, \<dots> = m1\<rparr>
               \<lparr>x = Num q, y = Num w, active = a2, parent = p2, \<dots> = m2\<rparr> = Num \<bar>r - q\<bar>"
  by (simp add: getDistance_def)

text \<open>
  What the loop computes: the last knot of the array, in its order, that is closer than
  \<open>maxDistance\<close>, and \<open>null\<close> when there is none.
\<close>

lemma findClosestConstructionPoint_last:
  "findClosestConstructionPoint s u v =
     (case filter (withinMaxDistance s u v) (constructionPoints s) of
        [] \<Rightarrow> None
      | r # rs \<Rightarrow> Some (last (r # rs)))"
proof -
  have "foldl (\<lambda>foundPoint curPoint. if withinMaxDistance s u v curPoint then Some curPoint else foundPoint)
          None cps
        = (case filter (withinMaxDistance s u v) cps of [] \<Rightarrow> None | r # rs \<Rightarrow> Some (last (r # rs)))"
    for cps
    by (induction cps rule: rev_induct) (auto split: list.splits)
  then show ?thesis
    by (simp add: findClosestConstructionPoint_def withinMaxDistance_def Let_def)
qed

text \<open>
  Claim C4 at a query on the first of two knots that are both within \<open>maxDistance\<close>:
  the query \<open>(0, 0)\<close> is at distance 0 of the first knot and at distance 6 of the
  second, and the hit test returns the second.
\<close>

theorem hit_test_returns_last_knot:
  "constructionPoints nearKnots = [1, 4]
   \<and> getDistance (newPoint (Num 0) (Num 0)) (knots nearKnots 1) = Num 0
   \<and> getDistance (newPoint (Num 0) (Num 0)) (knots nearKnots 4) = Num 6
   \<and> maxDistance (options nearKnots) = Num 10
   \<and> findClosestConstructionPoint nearKnots (Num 0) (Num 0) = Some 4"
  by (simp add: nearKnots_def import_defs findClosestConstructionPoint_def getDistance_horizontal)

section \<open>Insertion on the curve and removal\<close>

lemma upt_101: "[0..<101] = 0 # Suc 0 # [2..<101]"
  by code_simp

lemma lineSpline_state:
  "constructionPoints lineSpline = [Suc 0, 4]"
  "Point_count lineSpline = 6"
  "knots lineSpline (Suc 0) = \<lparr>x = Num 0, y = Num 0, active = False, parent = None,
                          handler1 = 0, handler2 = Some 2, fromCasteljau = False\<rparr>"
  "knots lineSpline 4 = \<lparr>x = Num 90, y = Num 0, active = False, parent = None,
                          handler1 = 3, handler2 = Some 5, fromCasteljau = False\<rparr>"
  "points lineSpline 0 = \<lparr>x = Num 0, y = Num 0, active = False, parent = Some (Suc 0)\<rparr>"
  "points lineSpline 2 = \<lparr>x = Num 31, y = Num 0, active = False, parent = Some (Suc 0)\<rparr>"
  "points lineSpline 3 = \<lparr>x = Num 60, y = Num 0, active = False, parent = Some 4\<rparr>"
  "points lineSpline 5 = \<lparr>x = Num 90, y = Num 0, active = False, parent = Some 4\<rparr>"
  "options lineSpline = defaultOptions"
  "ctrlKeyIsDown lineSpline = False"
  "currentMovingPoint lineSpline = None"
  by (simp_all add: lineSpline_def import_defs)

lemma lineSpline_projection_45:
  "foldl (projectionStep lineSpline \<lparr>x = Num 45, y = Num 0, active = False, parent = None\<rparr>
            0 (Suc 0) 4) None [0..<101]
   = Some \<lparr>hit_point = \<lparr>x = Num 45, y = Num 0, active = False, parent = None\<rparr>,
           hit_distance = Num 0, hit_position = 0, hit_t = Num (1 / 2),
           hit_P0 = Suc 0, hit_P1 = 2, hit_P2 = 3, hit_P3 = 4\<rparr>"
  by (simp add: upt_101 lineSpline_state defaultOptions_def newPoint_def projectionStep_def
      cubicBezierInterpolate_def outgoingHandler_def getDistance_horizontal Let_def)

lemma lineSpline_click_45:
  "findPointOnSpline lineSpline (Num 45) (Num 0)
   = Some \<lparr>hit_point = \<lparr>x = Num 45, y = Num 0, active = False, parent = None\<rparr>,
           hit_distance = Num 0, hit_position = Suc 0, hit_t = Num (1 / 2),
           hit_P0 = Suc 0, hit_P1 = 2, hit_P2 = 3, hit_P3 = 4\<rparr>"
  by (simp add: findPointOnSpline_def lineSpline_state(1) newPoint_def Let_def
      lineSpline_projection_45)

lemma outgoingHandler_isMouseDown [simp]:
  "outgoingHandler (s\<lparr>isMouseDown := f\<rparr>) r = outgoingHandler s r"
  by (simp add: outgoingHandler_def split: option.splits)

lemma projectionStep_isMouseDown [simp]:
  "projectionStep (s\<lparr>isMouseDown := f\<rparr>) = projectionStep s"
  by (intro ext) (simp add: projectionStep_def Let_def cong: if_cong)

lemma findPointOnSpline_isMouseDown [simp]:
  "findPointOnSpline (s\<lparr>isMouseDown := f\<rparr>) u v = findPointOnSpline s u v"
  by (simp add: findPointOnSpline_def)

lemma midInserted_eq:
  "midInserted = knotInsertion (lineSpline\<lparr>isMouseDown := True\<rparr>) (Num (1 / 2)) (Suc 0) 2 3 4"
  by (simp add: midInserted_def mouseDownLeft_def lineSpline_state newPoint_def Let_def
      lineSpline_click_45)

lemma midInserted_state:
  "constructionPoints midInserted = [Suc 0, 8, 4]"
  "knots midInserted (Suc 0) = \<lparr>x = Num 0, y = Num 0, active = False, parent = None,
                          handler1 = 0, handler2 = Some 2, fromCasteljau = False\<rparr>"
  "knots midInserted 8 = \<lparr>x = Num 46, y = Num 0, active = True, parent = None,
                          handler1 = 6, handler2 = Some 7, fromCasteljau = True\<rparr>"
  "knots midInserted 4 = \<lparr>x = Num 90, y = Num 0, active = False, parent = None,
                          handler1 = 3, handler2 = Some 5, fromCasteljau = False\<rparr>"
  "points midInserted 2 = \<lparr>x = Num 16, y = Num 0, active = False, parent = Some (Suc 0)\<rparr>"
  "points midInserted 3 = \<lparr>x = Num 75, y = Num 0, active = False, parent = Some 4\<rparr>"
  "points midInserted 6 = \<lparr>x = Num 31, y = Num 0, active = False, parent = Some 8\<rparr>"
  "points midInserted 7 = \<lparr>x = Num 61, y = Num 0, active = False, parent = Some 8\<rparr>"
  "options midInserted = defaultOptions"
  "currentMovingPoint midInserted = Some (ConstructionPointRef 8)"
  by (simp_all add: midInserted_eq knotInsertion_def lineSpline_state weighted_def newPoint_def
      Let_def split_beta insertAfter_def setActivePoint_def resetActivePoint_def
      resetActiveStep_def)

lemmas removal_defs = run_def mouseUp_def mouseDownRight_def findClosestConstructionPoint_def
  removeConstructionPoint_def foundIndexOf_def arrayAt_def spliceOut_def reverseCasteljau_def
  outgoingHandler_def enforceCardinality_def defaultOptions_def newPoint_def Let_def

text \<open>
  Claim C2 at a click on the middle of the curve: the knot is inserted at \<open>t = 1/2\<close>,
  where the points of De Casteljau's construction fall on half pixels and are rounded
  (\<open>15.5\<close> to 16, \<open>45.5\<close> to 46, \<open>60.5\<close> to 61).  The ratio \<open>k\<close> of the inserted knot is 1,
  so the removal does not skip the fusion, and it puts the outgoing handle of the first
  knot at \<open>2 * 16 - 0 = 32\<close>, one pixel away from where it was.
\<close>

theorem insertion_then_removal_moves_handle:
  "constructionPoints lineSpline = [1, 4] \<and> constructionPoints midRemoved = [1, 4]
   \<and> getDistance (points midInserted 7) (knots midInserted 8)
     / getDistance (points midInserted 6) (knots midInserted 8) = Num 1
   \<and> outgoingHandler lineSpline 1 = 2 \<and> outgoingHandler midRemoved 1 = 2
   \<and> x (points lineSpline 2) = Num 31 \<and> y (points lineSpline 2) = Num 0
   \<and> x (points midRemoved 2) = Num 32 \<and> y (points midRemoved 2) = Num 0"
  by (simp add: midRemoved_def removal_defs midInserted_state lineSpline_state
      getDistance_horizontal)

lemma lineSpline_projection_0:
  "foldl (projectionStep lineSpline \<lparr>x = Num 0, y = Num 0, active = False, parent = None\<rparr>
            0 (Suc 0) 4) None [0..<101]
   = Some \<lparr>hit_point = \<lparr>x = Num 0, y = Num 0, active = False, parent = None\<rparr>,
           hit_distance = Num 0, hit_position = 0, hit_t = Num 0,
           hit_P0 = Suc 0, hit_P1 = 2, hit_P2 = 3, hit_P3 = 4\<rparr>"
  by (simp add: upt_101 lineSpline_state defaultOptions_def newPoint_def projectionStep_def
      cubicBezierInterpolate_def outgoingHandler_def getDistance_horizontal Let_def)

lemma lineSpline_projection_90:
  "foldl (projectionStep lineSpline \<lparr>x = Num 90, y = Num 0, active = False, parent = None\<rparr>
            0 (Suc 0) 4) None [0..<101]
   = Some \<lparr>hit_point = \<lparr>x = Num 90, y = Num 0, active = False, parent = None\<rparr>,
           hit_distance = Num 0, hit_position = 0, hit_t = Num 1,
           hit_P0 = Suc 0, hit_P1 = 2, hit_P2 = 3, hit_P3 = 4\<rparr>"
  by (simp add: upt_101 lineSpline_state defaultOptions_def newPoint_def projectionStep_def
      cubicBezierInterpolate_def outgoingHandler_def getDistance_horizontal Let_def)

lemma startInserted_eq:
  "startInserted = knotInsertion (lineSpline\<lparr>isMouseDown := True\<rparr>) (Num 0) (Suc 0) 2 3 4"
  by (simp add: startInserted_def mouseDownLeft_def lineSpline_state newPoint_def Let_def
      findPointOnSpline_def lineSpline_projection_0)

lemma endInserted_eq:
  "endInserted = knotInsertion (lineSpline\<lparr>isMouseDown := True\<rparr>) (Num 1) (Suc 0) 2 3 4"
  by (simp add: endInserted_def mouseDownLeft_def lineSpline_state newPoint_def Let_def
      findPointOnSpline_def lineSpline_projection_90)

lemmas insertion_defs = knotInsertion_def weighted_def newPoint_def
      Let_def split_beta insertAfter_def setActivePoint_def resetActivePoint_def
      resetActiveStep_def

lemma startInserted_state:
  "constructionPoints startInserted = [Suc 0, 8, 4]"
  "knots startInserted (Suc 0) = \<lparr>x = Num 0, y = Num 0, active = False, parent = None,
                          handler1 = 0, handler2 = Some 2, fromCasteljau = False\<rparr>"
  "knots startInserted 8 = \<lparr>x = Num 0, y = Num 0, active = True, parent = None,
                          handler1 = 6, handler2 = Some 7, fromCasteljau = True\<rparr>"
  "knots startInserted 4 = \<lparr>x = Num 90, y = Num 0, active = False, parent = None,
                          handler1 = 3, handler2 = Some 5, fromCasteljau = False\<rparr>"
  "points startInserted 2 = \<lparr>x = Num 0, y = Num 0, active = False, parent = Some (Suc 0)\<rparr>"
  "points startInserted 3 = \<lparr>x = Num 60, y = Num 0, active = False, parent = Some 4\<rparr>"
  "points startInserted 6 = \<lparr>x = Num 0, y = Num 0, active = False, parent = Some 8\<rparr>"
  "points startInserted 7 = \<lparr>x = Num 31, y = Num 0, active = False, parent = Some 8\<rparr>"
  "options startInserted = defaultOptions"
  "currentMovingPoint startInserted = Some (ConstructionPointRef 8)"
  by (simp_all add: startInserted_eq lineSpline_state insertion_defs)

lemma endInserted_state:
  "constructionPoints endInserted = [Suc 0, 8, 4]"
  "knots endInserted (Suc 0) = \<lparr>x = Num 0, y = Num 0, active = False, parent = None,
                          handler1 = 0, handler2 = Some 2, fromCasteljau = False\<rparr>"
  "knots endInserted 8 = \<lparr>x = Num 90, y = Num 0, active = True, parent = None,
                          handler1 = 6, handler2 = Some 7, fromCasteljau = True\<rparr>"
  "knots endInserted 4 = \<lparr>x = Num 90, y = Num 0, active = False, parent = None,
                          handler1 = 3, handler2 = Some 5, fromCasteljau = False\<rparr>"
  "points endInserted 2 = \<lparr>x = Num 31, y = Num 0, active = False, parent = Some (Suc 0)\<rparr>"
  "points endInserted 3 = \<lparr>x = Num 90, y = Num 0, active = False, parent = Some 4\<rparr>"
  "points endInserted 6 = \<lparr>x = Num 60, y = Num 0, active = False, parent = Some 8\<rparr>"
  "points endInserted 7 = \<lparr>x = Num 90, y = Num 0, active = False, parent = Some 8\<rparr>"
  "options endInserted = defaultOptions"
  "currentMovingPoint endInserted = Some (ConstructionPointRef 8)"
  by (simp_all add: endInserted_eq lineSpline_state insertion_defs)

text \<open>
  Claim C3 at two removals.  After the click on the start of the curve the inserted
  knot lies on its \<open>handler1\<close>, the ratio is \<open>31 / 0\<close>, which is \<open>Infinity\<close> and passes
  \<open>!isNaN(k)\<close>; the removal rewrites both adjacent handles to \<open>(NaN, NaN)\<close>.  After the
  click on the end of the curve the inserted knot lies on its \<open>handler2\<close>, the ratio is
  \<open>0 / 30 = 0\<close>, and the removal divides by it: the incoming handle of the next knot
  becomes \<open>(NaN, NaN)\<close>.
\<close>

theorem removal_with_degenerate_ratio_rewrites_handles:
  "getDistance (points startInserted 7) (knots startInserted 8)
     / getDistance (points startInserted 6) (knots startInserted 8) = Infinity
   \<and> points startInserted 2 = \<lparr>x = Num 0, y = Num 0, active = False, parent = Some 1\<rparr>
   \<and> points startInserted 3 = \<lparr>x = Num 60, y = Num 0, active = False, parent = Some 4\<rparr>
   \<and> points startRemoved 2 = \<lparr>x = NaN, y = NaN, active = False, parent = Some 1\<rparr>
   \<and> points startRemoved 3 = \<lparr>x = NaN, y = NaN, active = False, parent = Some 4\<rparr>
   \<and> getDistance (points endInserted 7) (knots endInserted 8)
     / getDistance (points endInserted 6) (knots endInserted 8) = Num 0
   \<and> points endInserted 3 = \<lparr>x = Num 90, y = Num 0, active = False, parent = Some 4\<rparr>
   \<and> points endRemoved 3 = \<lparr>x = NaN, y = NaN, active = False, parent = Some 4\<rparr>"
  by (simp add: startRemoved_def endRemoved_def removal_defs startInserted_state
      endInserted_state getDistance_horizontal minus_number_def)

section \<open>The arc-length table and its inverse\<close>

lemma isFinite_iff: "isFinite u \<longleftrightarrow> (\<exists>r. u = Num r)"
  by (cases u) simp_all






lemma newBezierUtils_fields [simp]:
  "a (newBezierUtils A B C D n) = A"
  "b (newBezierUtils A B C D n) = B"
  "c (newBezierUtils A B C D n) = C"
  "d (newBezierUtils A B C D n) = D"
  "len (newBezierUtils A B C D n) = n"
  by (simp_all add: newBezierUtils_def Let_def)


















section \<open>Regularly placed points on a spline of length zero\<close>

lemma bernstein_sum:
  fixes p t :: real
  shows "p * ((1 - t) * (1 - t) * (1 - t)) + 3 * t * ((1 - t) * (1 - t)) * p
           + 3 * (t * t) * (1 - t) * p + t * t * t * p = p"
  by (simp add: algebra_simps)

lemma lengthStep_coincident:
  assumes "x (a bz) = Num p" "x (b bz) = Num p" "x (c bz) = Num p" "x (d bz) = Num p"
    and "y (a bz) = Num q" "y (b bz) = Num q" "y (c bz) = Num q" "y (d bz) = Num q"
  shows "lengthStep bz (Num 0, u, v) 0 = (Num 0, Num p, Num q)"
    and "lengthStep bz (Num 0, Num p, Num q) i = (Num 0, Num p, Num q)"
  using assms bernstein_sum [of p "real i / 100"] bernstein_sum [of q "real i / 100"]
  by (simp_all add: lengthStep_def Let_def)

lemma getLength_coincident:
  assumes "x (a bz) = Num p" "x (b bz) = Num p" "x (c bz) = Num p" "x (d bz) = Num p"
    and "y (a bz) = Num q" "y (b bz) = Num q" "y (c bz) = Num q" "y (d bz) = Num q"
  shows "getLength bz = Num 0"
proof -
  have "foldl (lengthStep bz) (Num 0, NaN, NaN) [0..<Suc k] = (Num 0, Num p, Num q)" for k
  proof (induction k)
    case 0
    show ?case using lengthStep_coincident(1) [OF assms] by simp
  next
    case (Suc k)
    show ?case
      using Suc.IH lengthStep_coincident(2) [OF assms] by simp
  qed
  from this [of 99] show ?thesis
    by (simp add: getLength_def)
qed

lemma stackedKnots_state:
  "constructionPoints stackedKnots = [Suc 0, 3]"
  "knots stackedKnots (Suc 0) = \<lparr>x = Num 0, y = Num 0, active = False, parent = None,
                          handler1 = 0, handler2 = None, fromCasteljau = False\<rparr>"
  "knots stackedKnots 3 = \<lparr>x = Num 0, y = Num 0, active = False, parent = None,
                          handler1 = 2, handler2 = None, fromCasteljau = False\<rparr>"
  "points stackedKnots 0 = \<lparr>x = Num 0, y = Num 0, active = False, parent = Some (Suc 0)\<rparr>"
  "points stackedKnots 2 = \<lparr>x = Num 0, y = Num 0, active = False, parent = Some 3\<rparr>"
  by (simp_all add: stackedKnots_def import_defs)

lemma stackedKnots_length:
  "getLength (segmentSampler stackedKnots (Suc 0) 3) = Num 0"
  by (rule getLength_coincident [of _ 0 0])
     (simp_all add: segmentSampler_def stackedKnots_state knotPoint_def outgoingHandler_def
       Point.defs)

text \<open>
  Claim C1 at a spline of two knots and of length zero, for three points.  The share of
  the only segment is \<open>floor (0 / 0 * 3) - 0\<close>, which is \<open>NaN\<close>; the test
  \<open>index === bz.length - 1\<close> compares the index with \<open>NaN\<close>, so the remaining count is
  never handed to the last segment, and no point is produced.
\<close>

theorem zero_length_spline_gets_no_points:
  "length (constructionPoints stackedKnots) = 2
   \<and> getRegularlyPlacedPoints stackedKnots 3 = Some []"
  by (simp add: getRegularlyPlacedPoints_def beziersOf_def placeStep_def Let_def
      stackedKnots_state(1) stackedKnots_length minus_number_def strictEq_def)

text \<open>
  The count of the points when the length is not zero.  One step of the second loop,
  from a count \<open>p\<close> of points drawn so far to the count \<open>q\<close> that the new
  \<open>currentDistance\<close> asks for.
\<close>

lemma placeStep_count:
  assumes "0 < L" and "getLength (snd ibz) = Num r"
    and "\<lfloor>(cd + r) / L * of_int n\<rfloor> = q" and "p \<le> q"
  shows "\<exists>pts'. placeStep n (Num L) m (Some (Num (of_int p), Num cd, pts)) ibz
            = Some (Num (of_int q), Num (cd + r), pts')
          \<and> int (length pts') = int (length pts) + (q - p)"
proof -
  have "real_of_int q - real_of_int p = of_int (q - p)"
    by simp
  then show ?thesis
    using assms
    by (simp add: placeStep_def Let_def strictEq_def minus_number_def [of NaN]
        del: of_int_diff)
qed

lemma placeLoop_count:
  assumes "0 < L" and "0 \<le> n"
    and "map (\<lambda>ibz. getLength (snd ibz)) ibzs = map Num rs" and "\<forall>r \<in> set rs. 0 \<le> r"
  shows "\<exists>pts'. foldl (placeStep n (Num L) m)
                  (Some (Num (of_int \<lfloor>cd / L * of_int n\<rfloor>), Num cd, pts)) ibzs
            = Some (Num (of_int \<lfloor>(cd + sum_list rs) / L * of_int n\<rfloor>), Num (cd + sum_list rs), pts')
          \<and> int (length pts')
              = int (length pts) + (\<lfloor>(cd + sum_list rs) / L * of_int n\<rfloor> - \<lfloor>cd / L * of_int n\<rfloor>)"
  using assms(3,4)
proof (induction ibzs arbitrary: rs cd pts)
  case Nil
  then show ?case by simp
next
  case (Cons ibz ibzs)
  from Cons.prems(1) obtain r rs' where rs: "rs = r # rs'"
    and r: "getLength (snd ibz) = Num r"
    and rest: "map (\<lambda>ibz. getLength (snd ibz)) ibzs = map Num rs'"
    by (cases rs) auto
  have nonneg: "0 \<le> r" "\<forall>r \<in> set rs'. 0 \<le> r"
    using Cons.prems(2) rs by simp_all
  have "cd / L * of_int n \<le> (cd + r) / L * of_int n"
    using assms(1,2) nonneg(1) by (intro mult_right_mono divide_right_mono) simp_all
  then have mono: "\<lfloor>cd / L * of_int n\<rfloor> \<le> \<lfloor>(cd + r) / L * of_int n\<rfloor>"
    by (rule floor_mono)
  obtain pts1 where step:
    "placeStep n (Num L) m (Some (Num (of_int \<lfloor>cd / L * of_int n\<rfloor>), Num cd, pts)) ibz
       = Some (Num (of_int \<lfloor>(cd + r) / L * of_int n\<rfloor>), Num (cd + r), pts1)"
    and len1: "int (length pts1)
       = int (length pts) + (\<lfloor>(cd + r) / L * of_int n\<rfloor> - \<lfloor>cd / L * of_int n\<rfloor>)"
    using placeStep_count [OF assms(1) r refl mono] by blast
  obtain pts2 where loop:
    "foldl (placeStep n (Num L) m)
       (Some (Num (of_int \<lfloor>(cd + r) / L * of_int n\<rfloor>), Num (cd + r), pts1)) ibzs
       = Some (Num (of_int \<lfloor>(cd + r + sum_list rs') / L * of_int n\<rfloor>),
               Num (cd + r + sum_list rs'), pts2)"
    and len2: "int (length pts2)
       = int (length pts1)
           + (\<lfloor>(cd + r + sum_list rs') / L * of_int n\<rfloor> - \<lfloor>(cd + r) / L * of_int n\<rfloor>)"
    using Cons.IH [OF rest nonneg(2)] by blast
  have sum: "cd + sum_list rs = cd + r + sum_list rs'"
    by (simp add: rs)
  show ?case
    unfolding sum foldl_Cons step loop using len1 len2 by simp
qed

lemma total_length:
  assumes "map getLength bzs = map Num rs"
  shows "foldl (\<lambda>l bz. l + getLength bz) (Num r) bzs = Num (r + sum_list rs)"
  using assms
proof (induction bzs arbitrary: rs r)
  case Nil
  then show ?case by simp
next
  case (Cons bz bzs)
  then obtain q rs' where "rs = q # rs'" "getLength bz = Num q" "map getLength bzs = map Num rs'"
    by (cases rs) auto
  then show ?case
    using Cons.IH [of rs' "r + q"] by (simp add: add.assoc)
qed

text \<open>
  On a spline whose segments have finite lengths that do not add up to zero, the shares
  are \<open>floor\<close>s of a non-decreasing sequence that ends at \<open>shapesCount\<close>, because the
  last \<open>currentDistance\<close> is \<open>length\<close> itself: the result has \<open>shapesCount\<close> points.
\<close>

lemma regularly_placed_count:
  assumes "2 \<le> length (constructionPoints s)" and "0 < n"
    and "map getLength (beziersOf s) = map Num rs" and "\<forall>r \<in> set rs. 0 \<le> r"
    and "0 < sum_list rs"
  shows "\<exists>pts. getRegularlyPlacedPoints s n = Some pts \<and> length pts = nat n"
proof -
  define ibzs where "ibzs = zip [0..<length (beziersOf s)] (beziersOf s)"
  have lengths: "map (\<lambda>ibz. getLength (snd ibz)) ibzs = map Num rs"
    using assms(3) by (simp add: ibzs_def map_snd_zip flip: map_map [unfolded comp_def])
  have total: "foldl (\<lambda>l bz. l + getLength bz) (Num 0) (beziersOf s) = Num (sum_list rs)"
    using total_length [OF assms(3), of 0] by simp
  obtain pts where loop:
    "foldl (placeStep n (Num (sum_list rs)) (length (beziersOf s))) (Some (Num 0, Num 0, [])) ibzs
       = Some (Num (of_int \<lfloor>sum_list rs / sum_list rs * of_int n\<rfloor>), Num (sum_list rs), pts)"
    and len: "int (length pts) = \<lfloor>sum_list rs / sum_list rs * of_int n\<rfloor>"
    using placeLoop_count [OF assms(5) _ lengths assms(4), of n _ 0 "[]"] assms(2) by auto
  have "int (length pts) = n"
    using len assms(5) by simp
  then have "length pts = nat n" by simp
  moreover have "getRegularlyPlacedPoints s n = Some pts"
    using assms(1) by (simp add: getRegularlyPlacedPoints_def Let_def total ibzs_def [symmetric] loop)
  ultimately show ?thesis by blast
qed

lemma Math_sqrt_squares: "Math_sqrt (Num (p * p + q * q)) = Num (sqrt (p * p + q * q))"
  by (simp add: not_less)

lemma lengthStep_finite:
  assumes "finitePoint (a bz)" "finitePoint (b bz)" "finitePoint (c bz)" "finitePoint (d bz)"
  shows "\<exists>u' v'. lengthStep bz (Num 0, u, v) 0 = (Num 0, Num u', Num v')"
    and "\<exists>l' u' v'. lengthStep bz (Num l, Num p, Num q) i = (Num l', Num u', Num v') \<and> l \<le> l'"
proof -
  obtain ax ay bx by' cx cy dx dy where pts:
    "x (a bz) = Num ax" "y (a bz) = Num ay" "x (b bz) = Num bx" "y (b bz) = Num by'"
    "x (c bz) = Num cx" "y (c bz) = Num cy" "x (d bz) = Num dx" "y (d bz) = Num dy"
    using assms by (auto simp: finitePoint_def isFinite_iff)
  show "\<exists>u' v'. lengthStep bz (Num 0, u, v) 0 = (Num 0, Num u', Num v')"
    by (simp add: lengthStep_def Let_def pts)
  show "\<exists>l' u' v'. lengthStep bz (Num l, Num p, Num q) i = (Num l', Num u', Num v') \<and> l \<le> l'"
    by (simp add: lengthStep_def Let_def pts Math_sqrt_squares del: Math_sqrt.simps)
qed

lemma getLength_finite:
  assumes "finitePoint (a bz)" "finitePoint (b bz)" "finitePoint (c bz)" "finitePoint (d bz)"
  shows "\<exists>r\<ge>0. getLength bz = Num r"
proof -
  have "\<exists>l u v. foldl (lengthStep bz) (Num 0, NaN, NaN) [0..<Suc k] = (Num l, Num u, Num v) \<and> 0 \<le> l"
    for k
  proof (induction k)
    case 0
    show ?case using lengthStep_finite(1) [OF assms, of NaN NaN] by auto
  next
    case (Suc k)
    then obtain l u v where
      "foldl (lengthStep bz) (Num 0, NaN, NaN) [0..<Suc k] = (Num l, Num u, Num v)" "0 \<le> l"
      by blast
    then show ?case
      using lengthStep_finite(2) [OF assms, of l u v "Suc k"] by fastforce
  qed
  from this [of 99] show ?thesis
    by (auto simp: getLength_def)
qed

lemma finite_lengths:
  assumes "\<forall>bz \<in> set bzs. \<exists>r\<ge>0. getLength bz = Num r"
  shows "\<exists>rs. map getLength bzs = map Num rs \<and> (\<forall>r \<in> set rs. 0 \<le> r)"
  using assms
proof (induction bzs)
  case Nil
  show ?case by simp
next
  case (Cons bz bzs)
  then obtain r rs where "0 \<le> r" "getLength bz = Num r"
    "map getLength bzs = map Num rs" "\<forall>r \<in> set rs. 0 \<le> r"
    by auto
  then have "map getLength (bz # bzs) = map Num (r # rs) \<and> (\<forall>r \<in> set (r # rs). 0 \<le> r)"
    by simp
  then show ?case by blast
qed

lemma finitePoint_knotPoint [simp]: "finitePoint (knotPoint s k) = finitePoint (knots s k)"
  by (simp add: finitePoint_def knotPoint_def Point.defs)

lemma finiteSpline_beziers:
  assumes "finiteSpline s" and "bz \<in> set (beziersOf s)"
  shows "\<exists>r\<ge>0. getLength bz = Num r"
proof -
  from assms(2) obtain i where i: "Suc i < length (constructionPoints s)"
    and bz: "bz = segmentSampler s (constructionPoints s ! i) (constructionPoints s ! Suc i)"
    by (fastforce simp: beziersOf_def less_diff_conv)
  have fin: "finitePoint (knots s k) \<and> finitePoint (points s (handler1 (knots s k)))
               \<and> finitePoint (points s (outgoingHandler s k))"
    if "k \<in> set (constructionPoints s)" for k
    using assms(1) that by (simp add: finiteSpline_def list_all_iff)
  have "constructionPoints s ! i \<in> set (constructionPoints s)"
    "constructionPoints s ! Suc i \<in> set (constructionPoints s)"
    using i by simp_all
  then show ?thesis
    unfolding bz
    by (intro getLength_finite)
       (simp_all add: segmentSampler_def fin)
qed

lemma regularly_placed_points_count:
  assumes "2 \<le> length (constructionPoints s)" and "0 < n" and "finiteSpline s"
    and "foldl (\<lambda>l bz. l + getLength bz) (Num 0) (beziersOf s) \<noteq> Num 0"
  shows "\<exists>pts. getRegularlyPlacedPoints s n = Some pts \<and> length pts = nat n"
proof -
  obtain rs where rs: "map getLength (beziersOf s) = map Num rs" "\<forall>r \<in> set rs. 0 \<le> r"
    using finite_lengths finiteSpline_beziers [OF assms(3)] by blast
  have "sum_list rs \<noteq> 0"
    using assms(4) total_length [OF rs(1), of 0] by simp
  moreover have "0 \<le> sum_list rs"
    using rs(2) by (simp add: sum_list_nonneg)
  ultimately have "0 < sum_list rs" by simp
  then show ?thesis
    by (rule regularly_placed_count [OF assms(1,2) rs])
qed

section \<open>Insertion and removal without rounding\<close>

lemma Math_round_onGrid: "onGrid r \<Longrightarrow> Math_round (Num r) = Num r"
proof -
  assume "onGrid r"
  then obtain i :: int where r: "r = of_int i"
    by (metis onGrid_def)
  have "\<lfloor>real_of_int i + 1 / 2\<rfloor> = i"
    by linarith
  then show ?thesis by (simp add: r)
qed

lemma onGrid_of_int [simp]: "onGrid (of_int i)"
  by (simp add: onGrid_def)

lemma segmentSpline_state:
  "constructionPoints (segmentSpline (x0, y0) (x1, y1) (x2, y2) (x3, y3)) = [Suc 0, 4]"
  "Point_count (segmentSpline (x0, y0) (x1, y1) (x2, y2) (x3, y3)) = 6"
  "knots (segmentSpline (x0, y0) (x1, y1) (x2, y2) (x3, y3)) (Suc 0)
     = \<lparr>x = Num (of_int x0), y = Num (of_int y0), active = False, parent = None,
        handler1 = 0, handler2 = Some 2, fromCasteljau = False\<rparr>"
  "knots (segmentSpline (x0, y0) (x1, y1) (x2, y2) (x3, y3)) 4
     = \<lparr>x = Num (of_int x3), y = Num (of_int y3), active = False, parent = None,
        handler1 = 3, handler2 = Some 5, fromCasteljau = False\<rparr>"
  "points (segmentSpline (x0, y0) (x1, y1) (x2, y2) (x3, y3)) 0
     = \<lparr>x = Num (of_int x0), y = Num (of_int y0), active = False, parent = Some (Suc 0)\<rparr>"
  "points (segmentSpline (x0, y0) (x1, y1) (x2, y2) (x3, y3)) 2
     = \<lparr>x = Num (of_int x1), y = Num (of_int y1), active = False, parent = Some (Suc 0)\<rparr>"
  "points (segmentSpline (x0, y0) (x1, y1) (x2, y2) (x3, y3)) 3
     = \<lparr>x = Num (of_int x2), y = Num (of_int y2), active = False, parent = Some 4\<rparr>"
  "points (segmentSpline (x0, y0) (x1, y1) (x2, y2) (x3, y3)) 5
     = \<lparr>x = Num (of_int x3), y = Num (of_int y3), active = False, parent = Some 4\<rparr>"
  "options (segmentSpline (x0, y0) (x1, y1) (x2, y2) (x3, y3)) = defaultOptions"
  "currentMovingPoint (segmentSpline (x0, y0) (x1, y1) (x2, y2) (x3, y3)) = None"
  by (simp_all add: segmentSpline_def import_defs Math_round_onGrid del: Math_round.simps)

lemma inserted_state:
  assumes "subdivisionOnGrid t (of_int x0) (of_int x1) (of_int x2) (of_int x3)"
    and "subdivisionOnGrid t (of_int y0) (of_int y1) (of_int y2) (of_int y3)"
  defines "s \<equiv> knotInsertion (segmentSpline (x0, y0) (x1, y1) (x2, y2) (x3, y3)) (Num t) (Suc 0) 2 3 4"
  shows "constructionPoints s = [Suc 0, 8, 4]"
    and "knots s (Suc 0) = \<lparr>x = Num (of_int x0), y = Num (of_int y0), active = False, parent = None,
                             handler1 = 0, handler2 = Some 2, fromCasteljau = False\<rparr>"
    and "knots s 8 = \<lparr>x = Num (mix3 t (of_int x0) (of_int x1) (of_int x2) (of_int x3)),
                       y = Num (mix3 t (of_int y0) (of_int y1) (of_int y2) (of_int y3)),
                       active = True, parent = None,
                       handler1 = 6, handler2 = Some 7, fromCasteljau = True\<rparr>"
    and "knots s 4 = \<lparr>x = Num (of_int x3), y = Num (of_int y3), active = False, parent = None,
                       handler1 = 3, handler2 = Some 5, fromCasteljau = False\<rparr>"
    and "points s 0 = \<lparr>x = Num (of_int x0), y = Num (of_int y0), active = False,
                        parent = Some (Suc 0)\<rparr>"
    and "points s 2 = \<lparr>x = Num (mix t (of_int x0) (of_int x1)),
                        y = Num (mix t (of_int y0) (of_int y1)), active = False,
                        parent = Some (Suc 0)\<rparr>"
    and "points s 3 = \<lparr>x = Num (mix t (of_int x2) (of_int x3)),
                        y = Num (mix t (of_int y2) (of_int y3)), active = False,
                        parent = Some 4\<rparr>"
    and "points s 5 = \<lparr>x = Num (of_int x3), y = Num (of_int y3), active = False,
                        parent = Some 4\<rparr>"
    and "points s 6 = \<lparr>x = Num (mix2 t (of_int x0) (of_int x1) (of_int x2)),
                        y = Num (mix2 t (of_int y0) (of_int y1) (of_int y2)), active = False,
                        parent = Some 8\<rparr>"
    and "points s 7 = \<lparr>x = Num (mix2 t (of_int x1) (of_int x2) (of_int x3)),
                        y = Num (mix2 t (of_int y1) (of_int y2) (of_int y3)), active = False,
                        parent = Some 8\<rparr>"
    and "options s = defaultOptions"
    and "currentMovingPoint s = Some (ConstructionPointRef 8)"
  using assms(1,2) unfolding s_def subdivisionOnGrid_def
  by (simp_all add: insertion_defs segmentSpline_state Math_round_onGrid
      mix_def [symmetric] mix2_def [symmetric] mix3_def [symmetric]
      del: Math_round.simps)

lemma mix_differences:
  "v - mix t u v = (1 - t) * (v - u)"
  "u - mix t u v = t * (u - v)"
  by (simp_all add: mix_def algebra_simps)

lemma scaled_norm:
  assumes "0 \<le> r"
  shows "sqrt (r * p * (r * p) + r * q * (r * q)) = r * sqrt (p * p + q * q)"
proof -
  have "r * p * (r * p) + r * q * (r * q) = r\<^sup>2 * (p * p + q * q)"
    by (simp add: power2_eq_square algebra_simps)
  then show ?thesis
    using assms by (simp add: real_sqrt_mult)
qed

lemma getDistance_Num:
  assumes "x p = Num u1" "y p = Num v1" "x q = Num u2" "y q = Num v2"
  shows "getDistance p q = Num (sqrt ((u1 - u2) * (u1 - u2) + (v1 - v2) * (v1 - v2)))"
proof -
  have "\<not> (u1 - u2) * (u1 - u2) + (v1 - v2) * (v1 - v2) < 0"
    by (simp add: not_less)
  then show ?thesis
    using assms by (simp add: getDistance_def)
qed

text \<open>
  The ratio \<open>k\<close> of a knot that lies at \<open>mix t\<close> between its handles \<open>(u1, v1)\<close> and
  \<open>(u2, v2)\<close>.
\<close>

lemma ratio_of_inserted_knot:
  assumes "0 < t" "t < 1" and "u2 - u1 \<noteq> 0 \<or> v2 - v1 \<noteq> 0"
    and "x h1 = Num u1" "y h1 = Num v1" "x h2 = Num u2" "y h2 = Num v2"
    and "x k = Num (mix t u1 u2)" "y k = Num (mix t v1 v2)"
  shows "getDistance h2 k / getDistance h1 k = Num ((1 - t) / t)"
proof -
  define D where "D = sqrt ((u2 - u1) * (u2 - u1) + (v2 - v1) * (v2 - v1))"
  have "(u2 - u1) * (u2 - u1) + (v2 - v1) * (v2 - v1) \<noteq> 0"
    using assms(3) by (simp add: add_nonneg_eq_0_iff)
  then have D: "D \<noteq> 0" by (simp add: D_def)
  have "getDistance h2 k = Num ((1 - t) * D)"
    using assms(1,2)
    by (simp add: getDistance_Num [OF assms(6,7,8,9)] mix_differences
        scaled_norm [of "1 - t" "u2 - u1" "v2 - v1"] D_def)
  moreover have "sqrt ((u1 - u2) * (u1 - u2) + (v1 - v2) * (v1 - v2)) = D"
    by (simp add: D_def algebra_simps)
  then have "getDistance h1 k = Num (t * D)"
    using assms(1,2)
    by (simp add: getDistance_Num [OF assms(4,5,8,9)] mix_differences
        scaled_norm [of t "u1 - u2" "v1 - v2"])
  ultimately show ?thesis
    using D assms(1) by simp
qed

lemma restore_P:
  assumes "0 < t"
  shows "(1 + (1 - t) / t) * mix t u v - (1 - t) * u / t = v"
  using assms by (simp add: mix_def field_simps)

lemma restore_Q:
  assumes "0 < t" "t < 1"
  shows "((1 + (1 - t) / t) * mix t v w - w) * t / (1 - t) = v"
  using assms by (simp add: mix_def field_simps)

text \<open>
  On the spline of one segment, with the default options: when the six points of the
  subdivision at \<open>t\<close> have integer coordinates and the two handles of the inserted knot
  differ, the removal of the inserted knot succeeds and the spline exports as it did
  before the insertion.
\<close>

lemma segment_export_restored:
  assumes "0 < t" "t < 1"
    and "subdivisionOnGrid t (of_int x0) (of_int x1) (of_int x2) (of_int x3)"
    and "subdivisionOnGrid t (of_int y0) (of_int y1) (of_int y2) (of_int y3)"
    and "mix2 t (of_int x1) (of_int x2) (of_int x3) \<noteq> mix2 t (of_int x0) (of_int x1) (of_int x2)
         \<or> mix2 t (of_int y1) (of_int y2) (of_int y3) \<noteq> mix2 t (of_int y0) (of_int y1) (of_int y2)"
  shows "case removeConstructionPoint
                (knotInsertion (segmentSpline (x0, y0) (x1, y1) (x2, y2) (x3, y3)) (Num t) 1 2 3 4) 8 of
           Normal s' \<Rightarrow> getPoints s' = getPoints (segmentSpline (x0, y0) (x1, y1) (x2, y2) (x3, y3))
         | TypeError s' \<Rightarrow> False"
proof -
  define s where
    "s = knotInsertion (segmentSpline (x0, y0) (x1, y1) (x2, y2) (x3, y3)) (Num t) (Suc 0) 2 3 4"
  define s1 where "s1 = s\<lparr>currentMovingPoint := None\<rparr>"
  note state = inserted_state [OF assms(3,4), folded s_def]
  have st1:
    "constructionPoints s1 = constructionPoints s" "knots s1 = knots s" "points s1 = points s"
    "options s1 = options s"
    by (simp_all add: s1_def)
  have k: "getDistance (points s1 7) (knots s1 8) / getDistance (points s1 6) (knots s1 8)
             = Num ((1 - t) / t)"
    by (rule ratio_of_inserted_knot [OF assms(1,2), of
          "mix2 t (of_int x1) (of_int x2) (of_int x3)" "mix2 t (of_int x0) (of_int x1) (of_int x2)"
          "mix2 t (of_int y1) (of_int y2) (of_int y3)" "mix2 t (of_int y0) (of_int y1) (of_int y2)"])
       (use assms(5) in \<open>simp_all add: st1 state mix3_def\<close>)
  have ratio: "(1 - t) / t \<noteq> 0"
    using assms(1,2) by simp
  have fusion: "reverseCasteljau s1 8 (Suc 0) 4
      = Normal (updPoint 3 (\<lambda>p. p\<lparr>x := Num (of_int x2), y := Num (of_int y2)\<rparr>)
                 (updPoint 2 (\<lambda>p. p\<lparr>x := Num (of_int x1), y := Num (of_int y1)\<rparr>) s1))"
    using ratio
    by (simp add: reverseCasteljau_def Let_def outgoingHandler_def k [unfolded st1 state]
        st1 state newPoint_def restore_P [OF assms(1)] restore_Q [OF assms(1,2)]
        Math_round_onGrid del: Math_round.simps)
  have removal: "removeConstructionPoint s 8
      = Normal (enforceCardinality
          ((updPoint 3 (\<lambda>p. p\<lparr>x := Num (of_int x2), y := Num (of_int y2)\<rparr>)
             (updPoint 2 (\<lambda>p. p\<lparr>x := Num (of_int x1), y := Num (of_int y1)\<rparr>) s1))
           \<lparr>constructionPoints := [Suc 0, 4]\<rparr>))"
    by (simp add: removeConstructionPoint_def Let_def state(12) s1_def [symmetric] st1 state
        foundIndexOf_def arrayAt_def spliceOut_def fusion)
  show ?thesis
    unfolding One_nat_def s_def [symmetric] removal
    by (simp add: enforceCardinality_def defaultOptions_def st1 state getPoints_def
        getPointsStep_def segmentSpline_state)
qed

text \<open>
  The same in any state of the editor.  First the array: where the new knot goes, and
  what the search loop and the neighbour lookup of the removal find.
\<close>

lemma foldl_insert_skip:
  assumes "\<forall>j \<in> set js. l ! j \<noteq> P"
  shows "foldl (\<lambda>l index. if l ! index = P then take (Suc index) l @ n # drop (Suc index) l else l) l js = l"
  using assms by (induction js) simp_all

lemma insertAfter_at:
  assumes "distinct cps" and "i < length cps" and "n \<notin> set cps"
  shows "insertAfter cps (cps ! i) n = take (Suc i) cps @ n # drop (Suc i) cps"
proof -
  let ?f = "\<lambda>l index. if l ! index = cps ! i then take (Suc index) l @ n # drop (Suc index) l else l"
  let ?l = "take (Suc i) cps @ n # drop (Suc i) cps"
  have split: "[0..<length cps] = [0..<i] @ i # [Suc i..<length cps]"
    using assms(2) by (metis le0 less_imp_le_nat upt_add_eq_append upt_conv_Cons le_add_diff_inverse)
  have before: "foldl ?f cps [0..<i] = cps"
    using assms(1,2) by (intro foldl_insert_skip) (auto simp: nth_eq_iff_index_eq)
  have "?l ! j \<noteq> cps ! i" if "Suc i \<le> j" "j < length cps" for j
  proof (cases "j = Suc i")
    case True
    then show ?thesis
      using assms(2,3) by (auto simp: nth_append)
  next
    case False
    define m where "m = j - Suc (Suc i)"
    have m: "j = Suc (Suc i) + m"
      using that(1) False by (simp add: m_def)
    have "?l ! j = cps ! (j - 1)"
      using that(2) assms(2) by (simp add: m nth_append min_def)
    moreover have "cps ! (j - 1) \<noteq> cps ! i"
      using that False assms(1,2) by (auto simp: nth_eq_iff_index_eq)
    ultimately show ?thesis by simp
  qed
  then have after: "foldl ?f ?l [Suc i..<length cps] = ?l"
    by (intro foldl_insert_skip) auto
  show ?thesis
    unfolding insertAfter_def split by (simp add: before after)
qed

lemma foundIndexOf_at:
  assumes "j < length l" and "l ! j = n" and "\<forall>j' < length l. l ! j' = n \<longrightarrow> j' = j"
  shows "foundIndexOf l n = Some j"
proof -
  have "foldl (\<lambda>foundIndex index. if l ! index = n then Some index else foundIndex) None [0..<k]
          = (if j < k then Some j else None)" if "k \<le> length l" for k
    using that
  proof (induction k)
    case 0
    show ?case by simp
  next
    case (Suc k)
    have "l ! k = n \<longleftrightarrow> k = j"
      using assms(2,3) Suc.prems by auto
    then show ?case
      using Suc by (auto simp: less_Suc_eq)
  qed
  from this [of "length l"] show ?thesis
    using assms(1) by (simp add: foundIndexOf_def)
qed

lemma removal_indices:
  assumes "distinct cps" and "Suc i < length cps" and "n \<notin> set cps"
  defines "l \<equiv> take (Suc i) cps @ n # drop (Suc i) cps"
  shows "foundIndexOf l n = Some (Suc i)"
    and "arrayAt l (int (Suc i) - 1) = Some (cps ! i)"
    and "arrayAt l (int (Suc i) + 1) = Some (cps ! Suc i)"
    and "spliceOut l (Some (Suc i)) = cps"
proof -
  have len: "length l = Suc (length cps)"
    using assms(2) by (simp add: l_def)
  have at: "l ! Suc i = n"
    using assms(2) by (simp add: l_def nth_append)
  have only: "j' = Suc i" if "j' < length l" "l ! j' = n" for j'
  proof (rule ccontr)
    assume "j' \<noteq> Suc i"
    then have "l ! j' \<in> set cps"
      using that(1) assms(2) len
      by (auto simp: l_def nth_append nth_Cons' min_def)
    then show False using that(2) assms(3) by simp
  qed
  show "foundIndexOf l n = Some (Suc i)"
    using only assms(2) len by (intro foundIndexOf_at at) auto
  show "arrayAt l (int (Suc i) - 1) = Some (cps ! i)"
    using assms(2) by (simp add: arrayAt_def l_def nth_append)
  have "nat (int (Suc i) + 1) = Suc (Suc i)" by simp
  then show "arrayAt l (int (Suc i) + 1) = Some (cps ! Suc i)"
    using assms(2) len by (simp add: arrayAt_def) (simp add: l_def nth_append)
  show "spliceOut l (Some (Suc i)) = cps"
    using assms(2) by (simp add: spliceOut_def l_def)
qed

text \<open>Activating a point moves nothing; what the insertion writes.\<close>

lemma resetActiveStep_geometry:
  "x (knots (resetActiveStep s r) k) = x (knots s k)"
  "y (knots (resetActiveStep s r) k) = y (knots s k)"
  "fromCasteljau (knots (resetActiveStep s r) k) = fromCasteljau (knots s k)"
  "x (points (resetActiveStep s r) h) = x (points s h)"
  "y (points (resetActiveStep s r) h) = y (points s h)"
  by (simp_all add: resetActiveStep_def Let_def split: option.splits)

lemma foldl_resetActiveStep_geometry:
  "x (knots (foldl resetActiveStep s l) k) = x (knots s k)
   \<and> y (knots (foldl resetActiveStep s l) k) = y (knots s k)
   \<and> fromCasteljau (knots (foldl resetActiveStep s l) k) = fromCasteljau (knots s k)
   \<and> x (points (foldl resetActiveStep s l) h) = x (points s h)
   \<and> y (points (foldl resetActiveStep s l) h) = y (points s h)"
  by (induction l arbitrary: s) (simp_all add: resetActiveStep_geometry)

lemma setActivePoint_geometry [simp]:
  "x (knots (setActivePoint s point) k) = x (knots s k)"
  "y (knots (setActivePoint s point) k) = y (knots s k)"
  "fromCasteljau (knots (setActivePoint s point) k) = fromCasteljau (knots s k)"
  "x (points (setActivePoint s point) h) = x (points s h)"
  "y (points (setActivePoint s point) h) = y (points s h)"
proof -
  note reset = foldl_resetActiveStep_geometry [of s "constructionPoints s" k h]
  show "x (knots (setActivePoint s point) k) = x (knots s k)"
    using reset by (cases point) (auto simp: setActivePoint_def resetActivePoint_def Let_def)
  show "y (knots (setActivePoint s point) k) = y (knots s k)"
    using reset by (cases point) (auto simp: setActivePoint_def resetActivePoint_def Let_def)
  show "fromCasteljau (knots (setActivePoint s point) k) = fromCasteljau (knots s k)"
    using reset by (cases point) (auto simp: setActivePoint_def resetActivePoint_def Let_def)
  show "x (points (setActivePoint s point) h) = x (points s h)"
    using reset by (cases point) (auto simp: setActivePoint_def resetActivePoint_def Let_def)
  show "y (points (setActivePoint s point) h) = y (points s h)"
    using reset by (cases point) (auto simp: setActivePoint_def resetActivePoint_def Let_def)
qed

lemma knotInsertion_geometry:
  "constructionPoints (knotInsertion s t P0 P1 P2 P3)
     = insertAfter (constructionPoints s) P0 (Suc (Suc (Point_count s)))"
  "options (knotInsertion s t P0 P1 P2 P3) = options s"
  "fromCasteljau (knots (knotInsertion s t P0 P1 P2 P3) (Suc (Suc (Point_count s))))"
  "k \<noteq> Suc (Suc (Point_count s)) \<Longrightarrow>
     x (knots (knotInsertion s t P0 P1 P2 P3) k) = x (knots s k)"
  "k \<noteq> Suc (Suc (Point_count s)) \<Longrightarrow>
     y (knots (knotInsertion s t P0 P1 P2 P3) k) = y (knots s k)"
  by (simp_all add: knotInsertion_def Let_def split_beta)

lemma knotInsertion_on_grid:
  assumes "P1 < Point_count s" "P2 < Point_count s" "P1 \<noteq> P2"
    and "x (knots s P0) = Num u0" "y (knots s P0) = Num v0"
    and "x (points s P1) = Num u1" "y (points s P1) = Num v1"
    and "x (points s P2) = Num u2" "y (points s P2) = Num v2"
    and "x (knots s P3) = Num u3" "y (knots s P3) = Num v3"
    and "subdivisionOnGrid t u0 u1 u2 u3" "subdivisionOnGrid t v0 v1 v2 v3"
  defines "s' \<equiv> knotInsertion s (Num t) P0 P1 P2 P3"
  shows "x (knots s' (Suc (Suc (Point_count s)))) = Num (mix3 t u0 u1 u2 u3)"
    and "y (knots s' (Suc (Suc (Point_count s)))) = Num (mix3 t v0 v1 v2 v3)"
    and "x (points s' (Point_count s)) = Num (mix2 t u0 u1 u2)"
    and "y (points s' (Point_count s)) = Num (mix2 t v0 v1 v2)"
    and "x (points s' (Suc (Point_count s))) = Num (mix2 t u1 u2 u3)"
    and "y (points s' (Suc (Point_count s))) = Num (mix2 t v1 v2 v3)"
    and "x (points s' P1) = Num (mix t u0 u1)"
    and "y (points s' P1) = Num (mix t v0 v1)"
    and "x (points s' P2) = Num (mix t u2 u3)"
    and "y (points s' P2) = Num (mix t v2 v3)"
  using assms(1-13) unfolding s'_def subdivisionOnGrid_def
  by (simp_all add: knotInsertion_def weighted_def newPoint_def Let_def split_beta
      Math_round_onGrid mix_def [symmetric] mix2_def [symmetric] mix3_def [symmetric]
      del: Math_round.simps)

text \<open>
  The end of the removal in classical mode: the first knot may trade its outgoing handle
  for a clone of it, which has the same rounded coordinates.
\<close>

lemma enforceCardinality_frame:
  "constructionPoints (enforceCardinality q) = constructionPoints q"
  "x (knots (enforceCardinality q) k) = x (knots q k)"
  "y (knots (enforceCardinality q) k) = y (knots q k)"
  "h < Point_count q \<Longrightarrow> x (points (enforceCardinality q) h) = x (points q h)"
  "h < Point_count q \<Longrightarrow> y (points (enforceCardinality q) h) = y (points q h)"
  "k \<noteq> constructionPoints q ! 0 \<Longrightarrow>
     handler1 (knots (enforceCardinality q) k) = handler1 (knots q k)"
  by (simp_all add: enforceCardinality_def Let_def split_beta split: option.splits)

lemma enforceCardinality_outgoing:
  assumes "k \<noteq> constructionPoints q ! (length (constructionPoints q) - 1)"
    and "outgoingHandler q k < Point_count q"
    and "x (points q (outgoingHandler q k)) = Num u" and "y (points q (outgoingHandler q k)) = Num v"
    and "onGrid u" and "onGrid v"
  shows "x (points (enforceCardinality q) (outgoingHandler (enforceCardinality q) k)) = Num u"
    and "y (points (enforceCardinality q) (outgoingHandler (enforceCardinality q) k)) = Num v"
proof -
  show "x (points (enforceCardinality q) (outgoingHandler (enforceCardinality q) k)) = Num u"
  proof (cases "constructionPoints q \<noteq> [] \<and> \<not> naturalDrawMode (options q)")
    case False
    then have "enforceCardinality q = q"
      by (auto simp: enforceCardinality_def)
    then show ?thesis using assms(3) by simp
  next
    case True
    show ?thesis
    proof (cases "handler2 (knots q (constructionPoints q ! 0))")
      case None
      then show ?thesis
        using True assms(1,2,3)
        by (simp add: enforceCardinality_def Let_def outgoingHandler_def cong: option.case_cong)
    next
      case (Some h)
      then show ?thesis
        using True assms(1,2,3,5)
        by (cases "k = constructionPoints q ! 0")
           (simp_all add: enforceCardinality_def Let_def outgoingHandler_def split_beta
              clone_def newPoint_def Math_round_onGrid del: Math_round.simps
              cong: option.case_cong)
    qed
  qed
  show "y (points (enforceCardinality q) (outgoingHandler (enforceCardinality q) k)) = Num v"
  proof (cases "constructionPoints q \<noteq> [] \<and> \<not> naturalDrawMode (options q)")
    case False
    then have "enforceCardinality q = q"
      by (auto simp: enforceCardinality_def)
    then show ?thesis using assms(4) by simp
  next
    case True
    show ?thesis
    proof (cases "handler2 (knots q (constructionPoints q ! 0))")
      case None
      then show ?thesis
        using True assms(1,2,4)
        by (simp add: enforceCardinality_def Let_def outgoingHandler_def cong: option.case_cong)
    next
      case (Some h)
      then show ?thesis
        using True assms(1,2,4,6)
        by (cases "k = constructionPoints q ! 0")
           (simp_all add: enforceCardinality_def Let_def outgoingHandler_def split_beta
              clone_def newPoint_def Math_round_onGrid del: Math_round.simps
              cong: option.case_cong)
    qed
  qed
qed

text \<open>The fusion around a knot that lies where the subdivision has put it.\<close>

lemma reverseCasteljau_restores:
  assumes "0 < t" "t < 1"
    and "outgoingHandler q P0 = P1" "handler1 (knots q P3) = P2"
    and "handler1 (knots q f) = h1" "handler2 (knots q f) = Some h2"
    and "x (knots q P0) = Num u0" "y (knots q P0) = Num v0"
    and "x (points q P1) = Num (mix t u0 u1)" "y (points q P1) = Num (mix t v0 v1)"
    and "x (points q P2) = Num (mix t u2 u3)" "y (points q P2) = Num (mix t v2 v3)"
    and "x (knots q P3) = Num u3" "y (knots q P3) = Num v3"
    and "x (points q h1) = Num (mix2 t u0 u1 u2)" "y (points q h1) = Num (mix2 t v0 v1 v2)"
    and "x (points q h2) = Num (mix2 t u1 u2 u3)" "y (points q h2) = Num (mix2 t v1 v2 v3)"
    and "x (knots q f) = Num (mix3 t u0 u1 u2 u3)" "y (knots q f) = Num (mix3 t v0 v1 v2 v3)"
    and "mix2 t u1 u2 u3 \<noteq> mix2 t u0 u1 u2 \<or> mix2 t v1 v2 v3 \<noteq> mix2 t v0 v1 v2"
    and "onGrid u1" "onGrid v1" "onGrid u2" "onGrid v2"
  shows "reverseCasteljau q f P0 P3
           = Normal (updPoint P2 (\<lambda>p. p\<lparr>x := Num u2, y := Num v2\<rparr>)
                      (updPoint P1 (\<lambda>p. p\<lparr>x := Num u1, y := Num v1\<rparr>) q))"
proof -
  have k: "getDistance (points q h2) (knots q f) / getDistance (points q h1) (knots q f)
             = Num ((1 - t) / t)"
    by (rule ratio_of_inserted_knot [OF assms(1,2), of
          "mix2 t u1 u2 u3" "mix2 t u0 u1 u2" "mix2 t v1 v2 v3" "mix2 t v0 v1 v2"])
       (use assms(15-21) in \<open>simp_all add: mix3_def\<close>)
  have ratio: "(1 - t) / t \<noteq> 0"
    using assms(1,2) by simp
  show ?thesis
    using ratio
    by (simp add: reverseCasteljau_def Let_def assms(3-14) k newPoint_def
        restore_P [OF assms(1)] restore_Q [OF assms(1,2)] Math_round_onGrid assms(22-25)
        del: Math_round.simps)
qed

text \<open>
  That the knots of the array are distinct and allocated holds in every state the editor
  can reach, as does \<open>wellFormed\<close>.
\<close>

lemma distinctKnots_iff:
  "distinctKnots s \<longleftrightarrow>
     distinct (constructionPoints s) \<and> (\<forall>k \<in> set (constructionPoints s). k < Point_count s)"
  by (simp add: distinctKnots_def list_all_iff)

lemma sameLinks_distinctKnots: "sameLinks s s' \<Longrightarrow> distinctKnots s \<Longrightarrow> distinctKnots s'"
  by (simp add: sameLinks_def distinctKnots_def)

lemma distinctKnots_setPointsStep: "distinctKnots s \<Longrightarrow> distinctKnots (setPointsStep s point)"
  unfolding distinctKnots_iff
  by (fastforce simp: setPointsStep_def Let_def split_beta split: option.splits)

lemma distinctKnots_reset: "distinctKnots (reset s)"
  by (simp add: distinctKnots_def reset_def)

lemma distinctKnots_foldl_setPointsStep:
  "distinctKnots s \<Longrightarrow> distinctKnots (foldl setPointsStep s pts)"
  by (induction pts arbitrary: s) (simp_all add: distinctKnots_setPointsStep)

lemma distinctKnots_setPoints: "distinctKnots (setPoints s pts)"
  unfolding setPoints_def by (rule distinctKnots_foldl_setPointsStep [OF distinctKnots_reset])

lemma distinct_insertAfter:
  assumes "distinct cps" and "n \<notin> set cps"
  shows "distinct (insertAfter cps P n)"
proof (cases "P \<in> set cps")
  case True
  then obtain i where i: "i < length cps" "cps ! i = P"
    by (auto simp: in_set_conv_nth)
  have "set (take (Suc i) cps) \<inter> set (drop (Suc i) cps) = {}"
    using assms(1) by (simp add: set_take_disj_set_drop_if_distinct)
  moreover have "n \<notin> set (take (Suc i) cps)" "n \<notin> set (drop (Suc i) cps)"
    using assms(2) by (auto dest: in_set_takeD in_set_dropD)
  ultimately have "distinct (take (Suc i) cps @ n # drop (Suc i) cps)"
    using assms(1) by simp
  then show ?thesis
    using insertAfter_at [OF assms(1) i(1) assms(2)] i(2) by simp
next
  case False
  then have "\<forall>j \<in> set [0..<length cps]. cps ! j \<noteq> P"
    by auto
  then have "insertAfter cps P n = cps"
    unfolding insertAfter_def by (rule foldl_insert_skip)
  then show ?thesis using assms(1) by simp
qed

lemma distinctKnots_knotInsertion:
  assumes "distinctKnots s"
  shows "distinctKnots (knotInsertion s t P0 P1 P2 P3)"
proof -
  have fresh: "Suc (Suc (Point_count s)) \<notin> set (constructionPoints s)"
    using assms by (fastforce simp: distinctKnots_iff)
  have "distinct (constructionPoints (knotInsertion s t P0 P1 P2 P3))"
    using assms fresh by (simp add: knotInsertion_geometry(1) distinct_insertAfter distinctKnots_iff)
  moreover have "k < Point_count (knotInsertion s t P0 P1 P2 P3)"
    if "k \<in> set (constructionPoints (knotInsertion s t P0 P1 P2 P3))" for k
  proof -
    have "k = Suc (Suc (Point_count s)) \<or> k \<in> set (constructionPoints s)"
      using that knotInsertion_set [of s t P0 P1 P2 P3] by auto
    then show ?thesis
      using assms by (fastforce simp: distinctKnots_iff knotInsertion_links(1))
  qed
  ultimately show ?thesis
    by (simp add: distinctKnots_iff)
qed

lemma distinct_spliceOut: "distinct cps \<Longrightarrow> distinct (spliceOut cps foundIndex)"
  by (cases foundIndex)
     (simp_all add: spliceOut_def set_take_disj_set_drop_if_distinct)

lemma Point_count_enforceCardinality: "Point_count s \<le> Point_count (enforceCardinality s)"
  by (simp add: enforceCardinality_def Let_def split_beta split: option.splits)

lemma distinctKnots_enforceCardinality:
  assumes "distinctKnots s"
  shows "distinctKnots (enforceCardinality s)"
  using assms Point_count_enforceCardinality [of s]
  by (fastforce simp: distinctKnots_iff enforceCardinality_frame(1))

lemma distinctKnots_removeConstructionPoint:
  assumes "distinctKnots s"
  shows "distinctKnots (stateOf (removeConstructionPoint s point))"
proof -
  define s1 where "s1 = (if currentMovingPoint s = Some (ConstructionPointRef point)
                then s\<lparr>currentMovingPoint := None\<rparr> else s)"
  define foundIndex where "foundIndex = foundIndexOf (constructionPoints s1) point"
  define P0 where "P0 = (case foundIndex of None \<Rightarrow> None
                         | Some i \<Rightarrow> arrayAt (constructionPoints s1) (int i - 1))"
  define P3 where "P3 = (case foundIndex of None \<Rightarrow> None
                         | Some i \<Rightarrow> arrayAt (constructionPoints s1) (int i + 1))"
  define fused where "fused = (case (fromCasteljau (knots s1 point), P0, P3) of
                     (True, Some p0, Some p3) \<Rightarrow> reverseCasteljau s1 point p0 p3
                   | _ \<Rightarrow> Normal s1)"
  have s1: "distinctKnots s1"
    using assms by (simp add: s1_def distinctKnots_iff)
  have links: "sameLinks s1 (stateOf fused)"
    unfolding fused_def
    by (auto split: bool.splits option.splits intro: sameLinks_reverseCasteljau)
  have fused: "distinctKnots (stateOf fused)"
    by (rule sameLinks_distinctKnots [OF links s1])
  have same: "constructionPoints (stateOf fused) = constructionPoints s1"
    "Point_count (stateOf fused) = Point_count s1"
    using links by (simp_all add: sameLinks_def)
  have unfold: "removeConstructionPoint s point
      = (case fused of TypeError s2 \<Rightarrow> TypeError s2
         | Normal s2 \<Rightarrow> Normal (enforceCardinality
             (s2\<lparr>constructionPoints := spliceOut (constructionPoints s1) foundIndex\<rparr>)))"
    unfolding removeConstructionPoint_def Let_def fused_def P0_def P3_def foundIndex_def s1_def
    by (rule refl)
  show ?thesis
  proof (cases fused)
    case (TypeError s2)
    then show ?thesis using fused unfold by simp
  next
    case (Normal s2)
    have "distinctKnots (s2\<lparr>constructionPoints := spliceOut (constructionPoints s1) foundIndex\<rparr>)"
      using s1 same Normal set_spliceOut [of "constructionPoints s1" foundIndex]
      by (auto simp: distinctKnots_iff distinct_spliceOut)
    then show ?thesis
      using unfold Normal by (simp add: distinctKnots_enforceCardinality)
  qed
qed

lemma distinctKnots_appended:
  assumes "distinctKnots s"
  shows "distinctKnots (appended s position)"
  using assms unfolding distinctKnots_iff
  by (fastforce simp: appended_def Let_def split_beta)

lemma distinctKnots_appendConstructionPoint:
  assumes "distinctKnots s"
  shows "distinctKnots (stateOf (appendConstructionPoint s position))"
  using distinctKnots_appended [OF assms, of position]
  by (fastforce simp: appendConstructionPoint_unfold Let_def split_beta distinctKnots_iff
      split: option.splits)

lemma distinctKnots_mouseMove: "distinctKnots s \<Longrightarrow> distinctKnots (stateOf (mouseMove s u v))"
  by (rule sameLinks_distinctKnots [OF sameLinks_mouseMove])

lemma distinctKnots_flags:
  "distinctKnots s \<Longrightarrow> distinctKnots (s\<lparr>isMouseDown := f\<rparr>)"
  "distinctKnots s \<Longrightarrow> distinctKnots (s\<lparr>ctrlKeyIsDown := f\<rparr>)"
  "distinctKnots s \<Longrightarrow> distinctKnots (s\<lparr>currentMovingPoint := m\<rparr>)"
  "distinctKnots s \<Longrightarrow> distinctKnots (s\<lparr>options := opts\<rparr>)"
  "distinctKnots s \<Longrightarrow>
     distinctKnots (s\<lparr>isMouseDown := f, mouseReleaseAfterConstructionPointCreation := g\<rparr>)"
  by (simp_all add: distinctKnots_iff)

lemma distinctKnots_setActivePoint: "distinctKnots s \<Longrightarrow> distinctKnots (setActivePoint s point)"
  by (rule sameLinks_distinctKnots [OF sameLinks_setActivePoint])

lemma distinctKnots_mouseDownLeft:
  assumes "distinctKnots s"
  shows "distinctKnots (stateOf (mouseDownLeft s u v))"
proof -
  have s1: "distinctKnots (s\<lparr>isMouseDown := True\<rparr>)"
    by (rule distinctKnots_flags(1) [OF assms])
  show ?thesis
    unfolding mouseDownLeft_def Let_def
    using s1
    by (auto split: option.splits
        intro: distinctKnots_flags distinctKnots_setActivePoint distinctKnots_knotInsertion
          distinctKnots_appendConstructionPoint)
qed

lemma distinctKnots_mouseDownRight:
  "distinctKnots s \<Longrightarrow> distinctKnots (stateOf (mouseDownRight s u v))"
  by (auto simp: mouseDownRight_def Let_def split: option.splits
      intro: distinctKnots_removeConstructionPoint)

lemma distinctKnots_newBezierCanvas: "distinctKnots (newBezierCanvas opts)"
  by (simp add: distinctKnots_def newBezierCanvas_def)

lemma distinctKnots_dispatch: "distinctKnots s \<Longrightarrow> distinctKnots (dispatch s ev)"
  by (cases ev)
     (simp_all add: distinctKnots_setPoints distinctKnots_reset setOptions_def distinctKnots_flags
        distinctKnots_mouseDownLeft distinctKnots_mouseMove mouseUp_def
        distinctKnots_mouseDownRight keyDown_def keyUp_def)

lemma reachable_distinctKnots: "reachable s \<Longrightarrow> distinctKnots s"
  by (induction rule: reachable.induct)
     (simp_all add: distinctKnots_newBezierCanvas distinctKnots_dispatch)

text \<open>
  Claim C2, where nothing is rounded and the fusion is not skipped, in any state of the
  editor, whatever its options.  The knots of the array are distinct objects that own
  their handles, as in every state the editor can reach.  The segment is the one between
  the knots at the indices \<open>i\<close> and \<open>i + 1\<close>, and the insertion gets its four points as a
  click on the curve hands them over.  The four control points have integer coordinates,
  \<open>0 < t < 1\<close>, the six points of the subdivision at \<open>t\<close> have integer coordinates and
  the two handles of the inserted knot differ (its ratio \<open>k\<close> is then \<open>(1 - t) / t\<close>).
  Then the removal of the inserted knot, which is at the index \<open>i + 1\<close>, succeeds, the
  array is as it was before the insertion and the four control points of the segment are
  back.
\<close>

theorem insertion_then_removal_restores:
  fixes s :: BezierCanvas and i :: nat and t :: real
  defines "P0 \<equiv> constructionPoints s ! i" and "P3 \<equiv> constructionPoints s ! Suc i"
  defines "inserted \<equiv> knotInsertion s (Num t) P0 (outgoingHandler s P0) (handler1 (knots s P3)) P3"
  assumes "wellFormed s" and "distinct (constructionPoints s)"
    and "Suc i < length (constructionPoints s)"
    and "0 < t" and "t < 1"
    and "controlPoints s i = [(Num (of_int x0), Num (of_int y0)), (Num (of_int x1), Num (of_int y1)),
                              (Num (of_int x2), Num (of_int y2)), (Num (of_int x3), Num (of_int y3))]"
    and "subdivisionOnGrid t (of_int x0) (of_int x1) (of_int x2) (of_int x3)"
    and "subdivisionOnGrid t (of_int y0) (of_int y1) (of_int y2) (of_int y3)"
    and "mix2 t (of_int x1) (of_int x2) (of_int x3) \<noteq> mix2 t (of_int x0) (of_int x1) (of_int x2)
         \<or> mix2 t (of_int y1) (of_int y2) (of_int y3) \<noteq> mix2 t (of_int y0) (of_int y1) (of_int y2)"
  shows "case removeConstructionPoint inserted (constructionPoints inserted ! Suc i) of
           Normal s' \<Rightarrow> constructionPoints s' = constructionPoints s
                        \<and> controlPoints s' i = controlPoints s i
         | TypeError s' \<Rightarrow> False"
proof -
  define cps where "cps = constructionPoints s"
  define n where "n = Suc (Suc (Point_count s))"
  define P1 where "P1 = outgoingHandler s P0"
  define P2 where "P2 = handler1 (knots s P3)"
  have i: "i < length cps" "Suc i < length cps"
    using assms(6) by (simp_all add: cps_def)
  have mem: "P0 \<in> set cps" "P3 \<in> set cps"
    using i by (simp_all add: P0_def P3_def cps_def)
  have wf: "allocated s k" "owned s k" if "k \<in> set cps" for k
    using assms(4) that by (simp_all add: wellFormed_iff cps_def)
  have P03: "P0 \<noteq> P3"
    using assms(5) i by (simp add: P0_def P3_def cps_def nth_eq_iff_index_eq)
  have P1: "P1 < Point_count s" "parent (points s P1) = Some P0"
    using wf [OF mem(1)]
    by (auto simp: P1_def outgoingHandler_def allocated_iff owned_iff split: option.splits)
  have P2: "P2 < Point_count s" "parent (points s P2) = Some P3"
    using wf [OF mem(2)] by (auto simp: P2_def allocated_iff owned_iff)
  have P12: "P1 \<noteq> P2"
    using P1(2) P2(2) P03 by auto
  have fresh: "n \<notin> set cps"
  proof
    assume "n \<in> set cps"
    then have "n < Point_count s"
      using wf(1) by (simp add: allocated_iff)
    then show False by (simp add: n_def)
  qed
  have ne: "P0 \<noteq> n" "P3 \<noteq> n"
    using fresh mem by auto
  have coords:
    "x (knots s P0) = Num (of_int x0)" "y (knots s P0) = Num (of_int y0)"
    "x (points s P1) = Num (of_int x1)" "y (points s P1) = Num (of_int y1)"
    "x (points s P2) = Num (of_int x2)" "y (points s P2) = Num (of_int y2)"
    "x (knots s P3) = Num (of_int x3)" "y (knots s P3) = Num (of_int y3)"
    using assms(9) by (simp_all add: controlPoints_def Let_def P0_def P1_def P2_def P3_def)
  have ins: "inserted = knotInsertion s (Num t) P0 P1 P2 P3"
    by (simp add: inserted_def P1_def P2_def)
  note grid = knotInsertion_on_grid [OF P1(1) P2(1) P12 coords assms(10,11), folded ins n_def]
  have list: "constructionPoints inserted = take (Suc i) cps @ n # drop (Suc i) cps"
    using insertAfter_at [OF assms(5) i(1) [unfolded cps_def] fresh [unfolded cps_def]]
    by (simp add: ins knotInsertion_geometry(1) P0_def cps_def n_def)
  have at: "constructionPoints inserted ! Suc i = n"
    using i by (simp add: list nth_append)
  define q where "q = (if currentMovingPoint inserted = Some (ConstructionPointRef n)
                        then inserted\<lparr>currentMovingPoint := None\<rparr> else inserted)"
  have q: "knots q = knots inserted" "points q = points inserted"
    "constructionPoints q = constructionPoints inserted" "options q = options inserted"
    "Point_count q = Point_count inserted"
    by (simp_all add: q_def)
  have links:
    "outgoingHandler q P0 = P1" "handler1 (knots q P3) = P2"
    "handler1 (knots q n) = Point_count s" "handler2 (knots q n) = Some (Suc (Point_count s))"
    using ne
    by (simp_all add: q ins knotInsertion_links outgoingHandler_def P1_def P2_def n_def
        cong: option.case_cong)
  have old: "x (knots q P0) = Num (of_int x0)" "y (knots q P0) = Num (of_int y0)"
    "x (knots q P3) = Num (of_int x3)" "y (knots q P3) = Num (of_int y3)"
    using ne coords by (simp_all add: q ins knotInsertion_geometry n_def)
  have fusion: "reverseCasteljau q n P0 P3
      = Normal (updPoint P2 (\<lambda>p. p\<lparr>x := Num (of_int x2), y := Num (of_int y2)\<rparr>)
                 (updPoint P1 (\<lambda>p. p\<lparr>x := Num (of_int x1), y := Num (of_int y1)\<rparr>) q))"
    by (rule reverseCasteljau_restores [OF assms(7,8) links old(1,2) _ _ _ _ old(3,4) _ _ _ _ _ _
          assms(12)])
       (simp_all add: q grid)
  define q2 where
    "q2 = (updPoint P2 (\<lambda>p. p\<lparr>x := Num (of_int x2), y := Num (of_int y2)\<rparr>)
             (updPoint P1 (\<lambda>p. p\<lparr>x := Num (of_int x1), y := Num (of_int y1)\<rparr>) q))
          \<lparr>constructionPoints := cps\<rparr>"
  have casteljau: "fromCasteljau (knots q n)"
    by (simp add: q ins knotInsertion_geometry n_def)
  have unfold: "removeConstructionPoint inserted n =
     (let cps' = constructionPoints q;
          foundIndex = foundIndexOf cps' n;
          P0' = (case foundIndex of None \<Rightarrow> None | Some i \<Rightarrow> arrayAt cps' (int i - 1));
          P3' = (case foundIndex of None \<Rightarrow> None | Some i \<Rightarrow> arrayAt cps' (int i + 1));
          fused = (case (fromCasteljau (knots q n), P0', P3') of
                     (True, Some p0, Some p3) \<Rightarrow> reverseCasteljau q n p0 p3
                   | _ \<Rightarrow> Normal q)
      in case fused of
           TypeError s2 \<Rightarrow> TypeError s2
         | Normal s2 \<Rightarrow>
             Normal (enforceCardinality (s2\<lparr>constructionPoints := spliceOut cps' foundIndex\<rparr>)))"
    unfolding removeConstructionPoint_def q_def Let_def by (rule refl)
  note indices = removal_indices [OF assms(5) assms(6) fresh [unfolded cps_def], folded cps_def]
  have at_cps: "cps ! i = P0" "cps ! Suc i = P3"
    by (simp_all add: P0_def P3_def cps_def)
  have removal: "removeConstructionPoint inserted n = Normal (enforceCardinality q2)"
    unfolding unfold Let_def q(3) list indices option.case at_cps
    by (simp add: casteljau fusion q2_def)
  have q2: "constructionPoints q2 = cps" "knots q2 = knots inserted"
    "Point_count q2 = Point_count inserted"
    "outgoingHandler q2 P0 = P1" "handler1 (knots q2 P3) = P2"
    "x (points q2 P1) = Num (of_int x1)" "y (points q2 P1) = Num (of_int y1)"
    "x (points q2 P2) = Num (of_int x2)" "y (points q2 P2) = Num (of_int y2)"
    "x (knots q2 P0) = Num (of_int x0)" "y (knots q2 P0) = Num (of_int y0)"
    "x (knots q2 P3) = Num (of_int x3)" "y (knots q2 P3) = Num (of_int y3)"
    using P12 links old grid(7-10)
    by (simp_all add: q2_def q outgoingHandler_def cong: option.case_cong)
  have count: "Point_count q2 = Suc n"
    by (simp add: q2 ins knotInsertion_links n_def)
  have last: "P0 \<noteq> constructionPoints q2 ! (length (constructionPoints q2) - 1)"
    using assms(5) i by (simp add: q2 P0_def cps_def nth_eq_iff_index_eq)
  have first: "P3 \<noteq> constructionPoints q2 ! 0"
  proof -
    have "0 < length (constructionPoints s)"
      using assms(6) by auto
    from nth_eq_iff_index_eq [OF assms(5,6) this] show ?thesis
      by (simp add: q2 P3_def cps_def)
  qed
  have bound: "outgoingHandler q2 P0 < Point_count q2" "P2 < Point_count q2"
    using P1(1) P2(1) by (simp_all add: q2(4) count n_def)
  have handle: "x (points q2 (outgoingHandler q2 P0)) = Num (of_int x1)"
    "y (points q2 (outgoingHandler q2 P0)) = Num (of_int y1)"
    by (simp_all add: q2)
  note out = enforceCardinality_outgoing [OF last bound(1) handle onGrid_of_int onGrid_of_int]
  have inc: "handler1 (knots (enforceCardinality q2) P3) = P2"
    using enforceCardinality_frame(6) [OF first] q2(5) by simp
  have inc_coords: "x (points (enforceCardinality q2) P2) = Num (of_int x2)"
    "y (points (enforceCardinality q2) P2) = Num (of_int y2)"
    using enforceCardinality_frame(4,5) [OF bound(2)] by (simp_all add: q2(8,9))
  have knot_coords:
    "x (knots (enforceCardinality q2) P0) = Num (of_int x0)"
    "y (knots (enforceCardinality q2) P0) = Num (of_int y0)"
    "x (knots (enforceCardinality q2) P3) = Num (of_int x3)"
    "y (knots (enforceCardinality q2) P3) = Num (of_int y3)"
    by (simp_all add: enforceCardinality_frame(2,3) q2(10-13))
  have "controlPoints (enforceCardinality q2) i
          = [(Num (of_int x0), Num (of_int y0)), (Num (of_int x1), Num (of_int y1)),
             (Num (of_int x2), Num (of_int y2)), (Num (of_int x3), Num (of_int y3))]"
    unfolding controlPoints_def Let_def enforceCardinality_frame(1) q2(1) at_cps
    by (simp add: out inc inc_coords knot_coords)
  then have "controlPoints (enforceCardinality q2) i = controlPoints s i"
    by (simp add: assms(9))
  then show ?thesis
    by (simp add: at removal enforceCardinality_frame q2 cps_def)
qed

theorem insertion_then_removal_restores_witness:
  "(case removeConstructionPoint
           (knotInsertion (segmentSpline (0, 0) (0, 8) (8, 8) (8, 0)) (Num (1 / 2)) 1 2 3 4) 8 of
      Normal s' \<Rightarrow>
        constructionPoints s' = [1, 4]
        \<and> controlPoints s' 0 = [(Num 0, Num 0), (Num 0, Num 8), (Num 8, Num 8), (Num 8, Num 0)]
    | TypeError s' \<Rightarrow> False)
   \<and> (case removeConstructionPoint
           (knotInsertion
              (setOptions (segmentSpline (0, 0) (0, 8) (8, 8) (8, 0))
                 (defaultOptions\<lparr>naturalDrawMode := False\<rparr>))
              (Num (1 / 2)) 1 2 3 4) 8 of
      Normal s' \<Rightarrow>
        constructionPoints s' = [1, 4]
        \<and> controlPoints s' 0 = [(Num 0, Num 0), (Num 0, Num 8), (Num 8, Num 8), (Num 8, Num 0)]
    | TypeError s' \<Rightarrow> False)"
proof -
  let ?s = "segmentSpline (0, 0) (0, 8) (8, 8) (8, 0)"
  let ?c = "setOptions ?s (defaultOptions\<lparr>naturalDrawMode := False\<rparr>)"
  have grid: "subdivisionOnGrid (1 / 2) (of_int 0) (of_int 0) (of_int 8) (of_int 8)"
    "subdivisionOnGrid (1 / 2) (of_int 0) (of_int 8) (of_int 8) (of_int 0)"
    by (simp_all add: subdivisionOnGrid_def onGrid_def mix_def mix2_def mix3_def)
  have wf: "wellFormed ?s" "wellFormed ?c"
    by (simp_all add: segmentSpline_def run_def wellFormed_setPoints setOptions_def
        wellFormed_flags)
  have classical:
    "constructionPoints ?c = [Suc 0, 4]" "Point_count ?c = 6"
    "knots ?c = knots ?s" "points ?c = points ?s"
    by (simp_all add: setOptions_def segmentSpline_state)
  have inserted: "constructionPoints (knotInsertion ?c (Num (1 / 2)) (Suc 0) 2 3 4) = [Suc 0, 8, 4]"
    by (simp add: knotInsertion_geometry(1) classical insertAfter_def)
  show ?thesis
    using insertion_then_removal_restores [of ?s 0 "1 / 2" 0 0 0 8 8 8 8 0]
      insertion_then_removal_restores [of ?c 0 "1 / 2" 0 0 0 8 8 8 8 0] wf
    by (simp add: segmentSpline_state inserted_state(1) [OF grid] controlPoints_def
        outgoingHandler_def mix2_def mix_def grid [simplified] classical inserted
        cong: completion.case_cong)
qed

end
